theory Spec2Isabelle
  imports Complex_Main "HOL-Library.Word"
begin

section \<open>Python numbers\<close>

text \<open>
  The repository is Python over numpy and OpenCV. Every exception the modelled code
  can raise is a value of \<open>error\<close>; \<open>CvError\<close> is OpenCV's \<open>cv2.error\<close>.
\<close>

datatype error = ValueError | ZeroDivisionError | OverflowError | CvError

definition py_then :: "error + 'a \<Rightarrow> ('a \<Rightarrow> error + 'b) \<Rightarrow> error + 'b" where
  "py_then m f = (case m of Inl e \<Rightarrow> Inl e | Inr x \<Rightarrow> f x)"

text \<open>
  A Python float, like a numpy \<open>float64\<close>, is an IEEE 754 binary64 number: a finite
  value, an infinity or NaN. The sign of a zero is not kept: the code modelled here
  never observes it (a division by a zero raises, \<open>int(-0.0)\<close> is \<open>0\<close>, and
  \<open>x ** -0.0\<close> is \<open>x ** 0.0\<close>).
\<close>

datatype pyfloat = Fin real | PInf | NInf | NaN

text \<open>Rounding to the nearest integer, ties to the even one.\<close>

definition rne :: "real \<Rightarrow> int" where
  "rne r =
     (let f = \<lfloor>r\<rfloor>; d = r - real_of_int f
      in if d < 1 / 2 then f else if 1 / 2 < d then f + 1 else if even f then f else f + 1)"

text \<open>
  The exponent of the last place of the binary64 numbers around \<open>x\<close>: 53 significant
  bits, and the exponent \<open>-1022\<close> for the smallest binade and the subnormal numbers.
\<close>

definition ulp_exp :: "real \<Rightarrow> int" where
  "ulp_exp x = max \<lfloor>log 2 \<bar>x\<bar>\<rfloor> (- 1022) - 52"

text \<open>Rounding of a real number to binary64 with an unbounded exponent.\<close>

definition rnd :: "real \<Rightarrow> real" where
  "rnd x = (if x = 0 then 0 else real_of_int (rne (x / 2 powi ulp_exp x)) * 2 powi ulp_exp x)"

text \<open>The result of an arithmetic operation whose exact value is \<open>x\<close>.\<close>

definition fl :: "real \<Rightarrow> pyfloat" where
  "fl x =
     (let y = rnd x
      in if 2 ^ 1024 \<le> y then PInf else if y \<le> - (2 ^ 1024) then NInf else Fin y)"

fun f_neg :: "pyfloat \<Rightarrow> pyfloat" where
  "f_neg (Fin x) = Fin (- x)"
| "f_neg PInf = NInf"
| "f_neg NInf = PInf"
| "f_neg NaN = NaN"

fun f_abs :: "pyfloat \<Rightarrow> pyfloat" where
  "f_abs (Fin x) = Fin \<bar>x\<bar>"
| "f_abs PInf = PInf"
| "f_abs NInf = PInf"
| "f_abs NaN = NaN"

fun f_add :: "pyfloat \<Rightarrow> pyfloat \<Rightarrow> pyfloat" where
  "f_add (Fin x) (Fin y) = fl (x + y)"
| "f_add NaN b = NaN"
| "f_add a NaN = NaN"
| "f_add PInf NInf = NaN"
| "f_add NInf PInf = NaN"
| "f_add PInf b = PInf"
| "f_add NInf b = NInf"
| "f_add a PInf = PInf"
| "f_add a NInf = NInf"

definition f_sub :: "pyfloat \<Rightarrow> pyfloat \<Rightarrow> pyfloat" where
  "f_sub a b = f_add a (f_neg b)"

fun f_mul :: "pyfloat \<Rightarrow> pyfloat \<Rightarrow> pyfloat" where
  "f_mul (Fin x) (Fin y) = fl (x * y)"
| "f_mul NaN b = NaN"
| "f_mul a NaN = NaN"
| "f_mul (Fin x) PInf = (if x = 0 then NaN else if 0 < x then PInf else NInf)"
| "f_mul (Fin x) NInf = (if x = 0 then NaN else if 0 < x then NInf else PInf)"
| "f_mul PInf (Fin y) = (if y = 0 then NaN else if 0 < y then PInf else NInf)"
| "f_mul NInf (Fin y) = (if y = 0 then NaN else if 0 < y then NInf else PInf)"
| "f_mul PInf PInf = PInf"
| "f_mul PInf NInf = NInf"
| "f_mul NInf PInf = NInf"
| "f_mul NInf NInf = PInf"

text \<open>
  The IEEE quotient by a divisor that is not zero. The quotient by a zero depends on
  the sign of the zero and is left as NaN here: Python raises before it divides by
  zero, and numpy divides by the constant \<open>170\<close> only.
\<close>

fun ieee_div :: "pyfloat \<Rightarrow> pyfloat \<Rightarrow> pyfloat" where
  "ieee_div (Fin x) (Fin y) = (if y = 0 then NaN else fl (x / y))"
| "ieee_div NaN b = NaN"
| "ieee_div a NaN = NaN"
| "ieee_div (Fin x) PInf = Fin 0"
| "ieee_div (Fin x) NInf = Fin 0"
| "ieee_div PInf (Fin y) = (if y = 0 then NaN else if y < 0 then NInf else PInf)"
| "ieee_div NInf (Fin y) = (if y = 0 then NaN else if y < 0 then PInf else NInf)"
| "ieee_div PInf PInf = NaN"
| "ieee_div PInf NInf = NaN"
| "ieee_div NInf PInf = NaN"
| "ieee_div NInf NInf = NaN"

text \<open>Python's \<open>a / b\<close> on floats.\<close>

definition f_truediv :: "pyfloat \<Rightarrow> pyfloat \<Rightarrow> error + pyfloat" where
  "f_truediv a b = (if b = Fin 0 then Inl ZeroDivisionError else Inr (ieee_div a b))"

text \<open>\<open>a < b\<close> on floats: false as soon as one side is NaN.\<close>

fun f_less :: "pyfloat \<Rightarrow> pyfloat \<Rightarrow> bool" where
  "f_less (Fin x) (Fin y) = (x < y)"
| "f_less NaN b = False"
| "f_less a NaN = False"
| "f_less a NInf = False"
| "f_less PInf b = False"
| "f_less NInf b = True"
| "f_less a PInf = True"

text \<open>
  The conversion of a Python int to a float (in mixed arithmetic, too): correctly
  rounded, \<open>OverflowError\<close> beyond the range of binary64.
\<close>

definition float_of_int :: "int \<Rightarrow> error + pyfloat" where
  "float_of_int n = (case fl (real_of_int n) of Fin x \<Rightarrow> Inr (Fin x) | _ \<Rightarrow> Inl OverflowError)"

text \<open>Python's \<open>a / b\<close> on two ints: the correctly rounded quotient.\<close>

definition int_truediv :: "int \<Rightarrow> int \<Rightarrow> error + pyfloat" where
  "int_truediv a b =
     (if b = 0 then Inl ZeroDivisionError
      else case fl (real_of_int a / real_of_int b) of
             Fin q \<Rightarrow> Inr (Fin q)
           | _ \<Rightarrow> Inl OverflowError)"

text \<open>\<open>int(x)\<close> on a float truncates toward zero and raises on an infinity or NaN.\<close>

definition truncate_real :: "real \<Rightarrow> int" where
  "truncate_real x = (if 0 \<le> x then \<lfloor>x\<rfloor> else \<lceil>x\<rceil>)"

fun py_int :: "pyfloat \<Rightarrow> error + int" where
  "py_int (Fin x) = Inr (truncate_real x)"
| "py_int PInf = Inl OverflowError"
| "py_int NInf = Inl OverflowError"
| "py_int NaN = Inl ValueError"

text \<open>\<open>n * x\<close> for an int \<open>n\<close> and a float \<open>x\<close>.\<close>

definition int_mul_float :: "int \<Rightarrow> pyfloat \<Rightarrow> error + pyfloat" where
  "int_mul_float n x = py_then (float_of_int n) (\<lambda>nf. Inr (f_mul nf x))"

text \<open>
  \<open>calculate_aspect_ratio\<close> returns a float, or the int \<open>0\<close> for a height \<open>0\<close>:
  a number is an int or a float, and the arithmetic below follows Python's rules for
  each (ints are exact; an int meets a float as a float).
\<close>

datatype pynum = PyInt int | PyFloat pyfloat

fun num_value :: "pynum \<Rightarrow> pyfloat" where
  "num_value (PyInt k) = Fin (real_of_int k)"
| "num_value (PyFloat x) = x"

text \<open>\<open>a < b\<close>: Python compares an int with a float by their exact values.\<close>

definition num_less :: "pynum \<Rightarrow> pynum \<Rightarrow> bool" where
  "num_less a b = f_less (num_value a) (num_value b)"

fun int_mul_num :: "int \<Rightarrow> pynum \<Rightarrow> error + pynum" where
  "int_mul_num n (PyInt k) = Inr (PyInt (n * k))"
| "int_mul_num n (PyFloat x) = py_then (int_mul_float n x) (\<lambda>p. Inr (PyFloat p))"

fun int_div_num :: "int \<Rightarrow> pynum \<Rightarrow> error + pynum" where
  "int_div_num n (PyInt k) = py_then (int_truediv n k) (\<lambda>q. Inr (PyFloat q))"
| "int_div_num n (PyFloat x) =
     py_then (float_of_int n) (\<lambda>nf. py_then (f_truediv nf x) (\<lambda>q. Inr (PyFloat q)))"

fun num_int :: "pynum \<Rightarrow> error + int" where
  "num_int (PyInt k) = Inr k"
| "num_int (PyFloat x) = py_int x"

text \<open>
  Truthiness of an optional integer argument: \<open>None\<close> and \<open>0\<close> are falsy,
  every other integer (negative ones too) is truthy.
\<close>

definition truthy :: "int option \<Rightarrow> bool" where
  "truthy t = (case t of None \<Rightarrow> False | Some v \<Rightarrow> v \<noteq> 0)"

section \<open>\<open>src/core/utils.py\<close>: the dimension resolver\<close>

definition calculate_aspect_ratio :: "int \<Rightarrow> int \<Rightarrow> error + pynum" where
  "calculate_aspect_ratio width height =
     (if height \<noteq> 0 then py_then (int_truediv width height) (\<lambda>q. Inr (PyFloat q))
      else Inr (PyInt 0))"

definition get_new_dimensions ::
  "int \<Rightarrow> int \<Rightarrow> int option \<Rightarrow> int option \<Rightarrow> pyfloat option \<Rightarrow> bool
     \<Rightarrow> error + (int \<times> int)" where
  "get_new_dimensions original_width original_height target_width target_height
       scale_factor maintain_aspect =
     (case scale_factor of
        Some s \<Rightarrow>
          py_then (int_mul_float original_width s) (\<lambda>ws.
          py_then (py_int ws) (\<lambda>new_width.
          py_then (int_mul_float original_height s) (\<lambda>hs.
          py_then (py_int hs) (\<lambda>new_height.
            Inr (new_width, new_height)))))
      | None \<Rightarrow>
          if truthy target_width \<and> truthy target_height then
            (if maintain_aspect then
               py_then (calculate_aspect_ratio original_width original_height) (\<lambda>aspect.
               py_then (calculate_aspect_ratio (the target_width) (the target_height))
                 (\<lambda>target_aspect.
                 if num_less aspect target_aspect then
                   py_then (int_mul_num (the target_height) aspect) (\<lambda>p.
                   py_then (num_int p) (\<lambda>new_width.
                     Inr (new_width, the target_height)))
                 else
                   py_then (int_div_num (the target_width) aspect) (\<lambda>q.
                   py_then (num_int q) (\<lambda>new_height.
                     Inr (the target_width, new_height)))))
             else Inr (the target_width, the target_height))
          else if truthy target_width then
            py_then (calculate_aspect_ratio original_width original_height) (\<lambda>aspect.
            py_then (int_div_num (the target_width) aspect) (\<lambda>q.
            py_then (num_int q) (\<lambda>new_height.
              Inr (the target_width, new_height))))
          else if truthy target_height then
            py_then (calculate_aspect_ratio original_width original_height) (\<lambda>aspect.
            py_then (int_mul_num (the target_height) aspect) (\<lambda>p.
            py_then (num_int p) (\<lambda>new_width.
              Inr (new_width, the target_height))))
          else Inr (original_width, original_height))"

section \<open>Image buffers and input validation\<close>

text \<open>
  A numpy array of unsigned 8-bit samples: its shape and its samples in row-major
  order. \<open>py_value\<close> is what a caller can pass where an image is expected:
  \<open>None\<close>, an array, or any other object (a string, say).
\<close>

record ndarray =
  shape :: "nat list"
  data :: "8 word list"

datatype py_value = PyNone | PyOther | NdArray ndarray

text \<open>\<open>image.size\<close>: the number of elements.\<close>

definition ndarray_size :: "ndarray \<Rightarrow> nat" where
  "ndarray_size a = prod_list (shape a)"

fun validate_image :: "py_value \<Rightarrow> bool" where
  "validate_image PyNone = False"
| "validate_image PyOther = False"
| "validate_image (NdArray a) = (length (shape a) = 2 \<or> length (shape a) = 3)"

text \<open>\<open>ImageProcessor.validate_input\<close> raises \<open>ValueError\<close> or returns nothing.\<close>

definition validate_input :: "py_value \<Rightarrow> error + unit" where
  "validate_input img = (if \<not> validate_image img then Inl ValueError else Inr ())"

section \<open>\<open>src/core/utils.py\<close> and \<open>src/processors/gamma_adjuster.py\<close>: gamma\<close>

text \<open>
  A list comprehension evaluates its elements from left to right and the first
  exception ends it.
\<close>

fun collect :: "(error + 'a) list \<Rightarrow> error + 'a list" where
  "collect [] = Inr []"
| "collect (r # rs) =
     (case r of
        Inl e \<Rightarrow> Inl e
      | Inr x \<Rightarrow> (case collect rs of Inl e \<Rightarrow> Inl e | Inr xs \<Rightarrow> Inr (x # xs)))"

text \<open>
  \<open>.astype(np.uint8)\<close> on a \<open>float64\<close>: truncation toward zero for a value in
  \<open>0..255\<close>. Outside that range the C conversion is undefined; the model takes
  what x86-64 gives (the truncation modulo 256, and 0 for an infinity or NaN). No
  statement below rests on that choice.
\<close>

fun astype_uint8 :: "pyfloat \<Rightarrow> 8 word" where
  "astype_uint8 (Fin x) = word_of_int (truncate_real x)"
| "astype_uint8 PInf = 0"
| "astype_uint8 NInf = 0"
| "astype_uint8 NaN = 0"

definition create_lookup_table :: "(nat \<Rightarrow> error + pyfloat) \<Rightarrow> error + 8 word list" where
  "create_lookup_table func =
     (case collect (map func [0..<256]) of
        Inl e \<Rightarrow> Inl e
      | Inr ys \<Rightarrow> Inr (map astype_uint8 ys))"

text \<open>
  \<open>v ** w\<close> on Python floats, as CPython's \<open>float_pow\<close> decides it, case by case
  and in this order, before it calls the C library: \<open>w = 0\<close> gives \<open>1.0\<close>; NaN
  goes through (but \<open>1.0 ** nan\<close> is \<open>1.0\<close>); an infinite \<open>w\<close> gives \<open>1.0\<close>,
  \<open>inf\<close> or \<open>0.0\<close> by the size of \<open>\<bar>v\<bar>\<close>; \<open>0.0\<close> to a negative power raises
  \<open>ZeroDivisionError\<close>; \<open>1.0\<close> to any power is \<open>1.0\<close>. Everything else is the
  C library's \<open>pow\<close>, the parameter \<open>libm_pow\<close>, whose infinite result raises
  \<open>OverflowError\<close>. The base in this program is \<open>i / 255.0\<close>, finite and not
  negative: an infinite or a negative base is not modelled (NaN stands for it).
\<close>

definition py_pow :: "(real \<Rightarrow> real \<Rightarrow> pyfloat) \<Rightarrow> pyfloat \<Rightarrow> pyfloat \<Rightarrow> error + pyfloat" where
  "py_pow libm_pow v w =
     (if w = Fin 0 then Inr (Fin 1)
      else if v = NaN then Inr NaN
      else if w = NaN then Inr (if v = Fin 1 then Fin 1 else NaN)
      else if w = PInf \<or> w = NInf then
        (if f_abs v = Fin 1 then Inr (Fin 1)
         else if (w = PInf) = f_less (Fin 1) (f_abs v) then Inr PInf
         else Inr (Fin 0))
      else case (v, w) of
             (Fin x, Fin y) \<Rightarrow>
               if x < 0 then Inr NaN
               else if x = 0 then (if y < 0 then Inl ZeroDivisionError else Inr (Fin 0))
               else if x = 1 then Inr (Fin 1)
               else (case libm_pow x y of
                       Fin p \<Rightarrow> Inr (Fin p)
                     | PInf \<Rightarrow> Inl OverflowError
                     | NInf \<Rightarrow> Inl OverflowError
                     | NaN \<Rightarrow> Inl ValueError)
           | _ \<Rightarrow> Inr NaN)"

text \<open>
  What the statements below assume of the C library's \<open>pow\<close> on a base strictly
  between 0 and 1 and a positive exponent: the result is a finite number between 0
  and 1, and it does not decrease when the base grows.
\<close>

definition libm_pow_in_unit :: "(real \<Rightarrow> real \<Rightarrow> pyfloat) \<Rightarrow> bool" where
  "libm_pow_in_unit libm_pow \<longleftrightarrow>
     (\<forall>x y. 0 < x \<and> x < 1 \<and> 0 < y \<longrightarrow> (\<exists>p. libm_pow x y = Fin p \<and> 0 \<le> p \<and> p \<le> 1))"

definition libm_pow_monotone :: "(real \<Rightarrow> real \<Rightarrow> pyfloat) \<Rightarrow> bool" where
  "libm_pow_monotone libm_pow \<longleftrightarrow>
     (\<forall>x x' y p p'. 0 < x \<and> x \<le> x' \<and> x' < 1 \<and> 0 < y
        \<and> libm_pow x y = Fin p \<and> libm_pow x' y = Fin p' \<longrightarrow> p \<le> p')"

text \<open>
  The value of \<open>x ** inv_gamma\<close> where it is a finite float (and 0 elsewhere), to
  speak of the entries of the table.
\<close>

definition pow_value :: "(real \<Rightarrow> real \<Rightarrow> pyfloat) \<Rightarrow> pyfloat \<Rightarrow> real \<Rightarrow> real" where
  "pow_value libm_pow inv_gamma x =
     (case py_pow libm_pow (Fin x) inv_gamma of Inr (Fin p) \<Rightarrow> p | _ \<Rightarrow> 0)"

text \<open>What the reciprocal \<open>1.0 / gamma\<close> of a positive gamma can be: zero or positive, or infinite.\<close>

definition inv_ok :: "pyfloat \<Rightarrow> bool" where
  "inv_ok w \<longleftrightarrow> w = PInf \<or> (\<exists>r. w = Fin r \<and> 0 \<le> r)"

text \<open>
  The entry function of \<open>GammaAdjuster.process\<close>,
  \<^verbatim>\<open>lambda i: ((i / 255.0) ** inv_gamma) * 255\<close>.
\<close>

definition gamma_entry :: "(real \<Rightarrow> real \<Rightarrow> pyfloat) \<Rightarrow> pyfloat \<Rightarrow> nat \<Rightarrow> error + pyfloat" where
  "gamma_entry libm_pow inv_gamma i =
     py_then (float_of_int (int i)) (\<lambda>fi.
     py_then (f_truediv fi (Fin 255)) (\<lambda>base.
     py_then (py_pow libm_pow base inv_gamma) (\<lambda>p.
     py_then (float_of_int 255) (\<lambda>c.
       Inr (f_mul p c)))))"

text \<open>
  The table built in \<open>GammaAdjuster.process\<close>:
  \<^verbatim>\<open>inv_gamma = 1.0 / gamma\<close>, then \<open>create_lookup_table\<close> on the entry function.
\<close>

definition gamma_lookup_table :: "(real \<Rightarrow> real \<Rightarrow> pyfloat) \<Rightarrow> pyfloat \<Rightarrow> error + 8 word list" where
  "gamma_lookup_table libm_pow gamma =
     py_then (f_truediv (Fin 1) gamma) (\<lambda>inv_gamma.
       create_lookup_table (gamma_entry libm_pow inv_gamma))"

text \<open>
  \<open>cv2.LUT\<close> (OpenCV, outside the repository) on an 8-bit image: every sample is
  replaced by the table entry at its value.
\<close>

definition cv2_LUT :: "ndarray \<Rightarrow> 8 word list \<Rightarrow> ndarray" where
  "cv2_LUT img table = img\<lparr>data := map (\<lambda>p. table ! unat p) (data img)\<rparr>"

text \<open>
  \<open>GammaAdjuster.process\<close>; \<open>default_gamma\<close> is the field of the object. After
  \<open>validate_input\<close> has returned, the image is an array: the last case is never
  reached.
\<close>

definition GammaAdjuster_process ::
  "(real \<Rightarrow> real \<Rightarrow> pyfloat) \<Rightarrow> pyfloat \<Rightarrow> py_value \<Rightarrow> pyfloat option \<Rightarrow> error + ndarray" where
  "GammaAdjuster_process libm_pow default_gamma img gamma_arg =
     (case validate_input img of
        Inl e \<Rightarrow> Inl e
      | Inr _ \<Rightarrow>
          (case img of
             NdArray a \<Rightarrow>
               (let gamma = (case gamma_arg of None \<Rightarrow> default_gamma | Some g \<Rightarrow> g)
                in if gamma = Fin 1 then Inr a
                   else case gamma_lookup_table libm_pow gamma of
                          Inl e \<Rightarrow> Inl e
                        | Inr lookup_table \<Rightarrow> Inr (cv2_LUT a lookup_table))
           | _ \<Rightarrow> Inl ValueError))"

text \<open>
  \<open>np.mean\<close> of the samples: the sum of 8-bit samples is exact in \<open>float64\<close>
  (below \<open>2\<^sup>5\<^sup>3\<close>), one division rounds. On an array without elements numpy
  returns NaN, with a warning.
\<close>

definition np_mean :: "ndarray \<Rightarrow> pyfloat" where
  "np_mean a =
     (if data a = [] then NaN
      else fl (real (sum_list (map unat (data a))) / real (length (data a))))"

text \<open>
  \<open>GammaAdjuster.auto_gamma\<close>. The conversion to grey levels, \<open>cv2.cvtColor\<close>
  with \<open>COLOR_BGR2GRAY\<close>, belongs to OpenCV and is the parameter \<open>cvtColor\<close>; it
  may raise. A NaN mean fails both comparisons and selects the last branch. The
  gamma handed to \<open>process\<close> is a numpy \<open>float64\<close> between \<open>0.5\<close> and \<open>1.5\<close>,
  on which numpy's division and power give what Python's give.
\<close>

definition auto_gamma ::
  "(ndarray \<Rightarrow> error + ndarray) \<Rightarrow> (real \<Rightarrow> real \<Rightarrow> pyfloat) \<Rightarrow> pyfloat \<Rightarrow> py_value
     \<Rightarrow> error + (pyfloat \<times> ndarray)" where
  "auto_gamma cvtColor libm_pow default_gamma img =
     (case validate_input img of
        Inl e \<Rightarrow> Inl e
      | Inr _ \<Rightarrow>
          (case img of
             NdArray a \<Rightarrow>
               (case (if length (shape a) = 3 then cvtColor a else Inr a) of
                  Inl e \<Rightarrow> Inl e
                | Inr gray \<Rightarrow>
                    (let mean_brightness = np_mean gray;
                         gamma =
                           (if f_less mean_brightness (Fin 85)
                              then f_add (Fin (1 / 2)) (ieee_div mean_brightness (Fin 170))
                            else if f_less (Fin 170) mean_brightness
                              then f_add (Fin 1)
                                     (ieee_div (f_sub mean_brightness (Fin 170)) (Fin 170))
                            else Fin 1)
                     in case GammaAdjuster_process libm_pow default_gamma img (Some gamma) of
                          Inl e \<Rightarrow> Inl e
                        | Inr corrected \<Rightarrow> Inr (gamma, corrected)))
           | _ \<Rightarrow> Inl ValueError))"

definition get_recommended_gamma ::
  "(ndarray \<Rightarrow> error + ndarray) \<Rightarrow> (real \<Rightarrow> real \<Rightarrow> pyfloat) \<Rightarrow> pyfloat \<Rightarrow> py_value
     \<Rightarrow> error + pyfloat" where
  "get_recommended_gamma cvtColor libm_pow default_gamma img =
     (case auto_gamma cvtColor libm_pow default_gamma img of
        Inl e \<Rightarrow> Inl e
      | Inr (gamma, corrected) \<Rightarrow> Inr gamma)"

section \<open>\<open>src/processors/rotator.py\<close>: rotation\<close>

type_synonym matrix = "(pyfloat \<times> pyfloat \<times> pyfloat) \<times> (pyfloat \<times> pyfloat \<times> pyfloat)"
type_synonym color = "int \<times> int \<times> int"

text \<open>
  The geometry that \<open>ImageRotator.process\<close> computes before it calls
  \<open>cv2.warpAffine\<close>: the matrix and the size \<open>(width, height)\<close> of the output,
  from the height and width of the image (\<open>image.shape[:2]\<close>).
  \<open>cv2.getRotationMatrix2D\<close> belongs to OpenCV and is the parameter
  \<open>getRotationMatrix2D\<close>: it gets the centre, the angle in degrees and the scale
  factor and returns a \<open>2 \<times> 3\<close> matrix of \<open>float64\<close>, whose first row starts, by
  OpenCV's documentation, with \<open>scale \<sqdot> cos angle\<close> and \<open>scale \<sqdot> sin angle\<close>.
\<close>

definition process_geometry ::
  "(int \<times> int \<Rightarrow> pyfloat \<Rightarrow> pyfloat \<Rightarrow> matrix)
     \<Rightarrow> int \<Rightarrow> int \<Rightarrow> pyfloat \<Rightarrow> bool \<Rightarrow> (int \<times> int) option \<Rightarrow> pyfloat
     \<Rightarrow> error + (matrix \<times> (int \<times> int))" where
  "process_geometry getRotationMatrix2D height width degrees expand center_arg scale =
     (let center = (case center_arg of None \<Rightarrow> (width div 2, height div 2) | Some c \<Rightarrow> c);
          rotation_matrix = getRotationMatrix2D center degrees scale
      in if expand then
           (case rotation_matrix of
              ((m00, m01, m02), (m10, m11, m12)) \<Rightarrow>
                (let cos_v = f_abs m00;
                     sin_v = f_abs m01
                 in py_then (int_mul_float height sin_v) (\<lambda>hs.
                    py_then (int_mul_float width cos_v) (\<lambda>wc.
                    py_then (py_int (f_add hs wc)) (\<lambda>new_width.
                    py_then (int_mul_float height cos_v) (\<lambda>hc.
                    py_then (int_mul_float width sin_v) (\<lambda>ws.
                    py_then (py_int (f_add hc ws)) (\<lambda>new_height.
                    py_then (int_truediv new_width 2) (\<lambda>half_w.
                    py_then (float_of_int (fst center)) (\<lambda>cx.
                    py_then (int_truediv new_height 2) (\<lambda>half_h.
                    py_then (float_of_int (snd center)) (\<lambda>cy.
                      Inr (((m00, m01, f_add m02 (f_sub half_w cx)),
                            (m10, m11, f_add m12 (f_sub half_h cy))),
                           (new_width, new_height))))))))))))))
         else Inr (rotation_matrix, (width, height)))"

text \<open>
  \<open>ImageRotator.process\<close>. \<open>cv2.warpAffine\<close> belongs to OpenCV and is the
  parameter \<open>warpAffine\<close>: it gets the image, the matrix, the output size and the
  border colour, and may raise.
\<close>

definition ImageRotator_process ::
  "(int \<times> int \<Rightarrow> pyfloat \<Rightarrow> pyfloat \<Rightarrow> matrix)
     \<Rightarrow> (ndarray \<Rightarrow> matrix \<Rightarrow> int \<times> int \<Rightarrow> color \<Rightarrow> error + ndarray)
     \<Rightarrow> py_value \<Rightarrow> pyfloat \<Rightarrow> bool \<Rightarrow> (int \<times> int) option \<Rightarrow> pyfloat \<Rightarrow> color
     \<Rightarrow> error + ndarray" where
  "ImageRotator_process getRotationMatrix2D warpAffine img degrees expand center scale
       border_color =
     (case validate_input img of
        Inl e \<Rightarrow> Inl e
      | Inr _ \<Rightarrow>
          (case img of
             NdArray a \<Rightarrow>
               if degrees = Fin 0 then Inr a
               else
                 (let height = int (shape a ! 0);
                      width = int (shape a ! 1)
                  in py_then
                       (process_geometry getRotationMatrix2D height width degrees expand
                          center scale)
                       (\<lambda>g. warpAffine a (fst g) (snd g) border_color))
           | _ \<Rightarrow> Inl ValueError))"

section \<open>Rounding to binary64\<close>

lemma rne_of_int [simp]: "rne (real_of_int n) = n"
  by (simp add: rne_def)

lemma rne_zero [simp]: "rne 0 = 0"
  using rne_of_int [of 0] by simp

lemma rne_between: "\<lfloor>r\<rfloor> \<le> rne r \<and> rne r \<le> \<lfloor>r\<rfloor> + 1"
  by (simp add: rne_def Let_def)

lemma rne_mono: "r \<le> s \<Longrightarrow> rne r \<le> rne s"
proof (cases "\<lfloor>r\<rfloor> = \<lfloor>s\<rfloor>")
  case True
  assume "r \<le> s"
  then show ?thesis using True by (auto simp add: rne_def Let_def)
next
  case False
  assume "r \<le> s"
  then have "\<lfloor>r\<rfloor> \<le> \<lfloor>s\<rfloor>" by (rule floor_mono)
  with False have "\<lfloor>r\<rfloor> + 1 \<le> \<lfloor>s\<rfloor>" by simp
  then show ?thesis using rne_between [of r] rne_between [of s] by linarith
qed

lemma rne_error: "\<bar>real_of_int (rne r) - r\<bar> \<le> 1 / 2"
proof -
  have "real_of_int \<lfloor>r\<rfloor> \<le> r" "r < real_of_int \<lfloor>r\<rfloor> + 1" by linarith+
  then show ?thesis by (auto simp add: rne_def Let_def)
qed

lemma rne_minus: "rne (- r) = - rne r"
proof (cases "r = real_of_int \<lfloor>r\<rfloor>")
  case True
  then obtain n where "r = real_of_int n" ..
  then have "rne (- r) = rne (real_of_int (- n))" by simp
  also have "\<dots> = - n" by (rule rne_of_int)
  finally show ?thesis using \<open>r = real_of_int n\<close> by simp
next
  case False
  then have fl: "\<lfloor>- r\<rfloor> = - \<lfloor>r\<rfloor> - 1"
    by (simp add: floor_minus ceiling_altdef)
  have d: "r - real_of_int \<lfloor>r\<rfloor> \<noteq> 0" using False by simp
  show ?thesis
    using d by (auto simp add: rne_def Let_def fl)
qed

lemma binade:
  assumes "x \<noteq> 0"
  shows "2 powi \<lfloor>log 2 \<bar>x\<bar>\<rfloor> \<le> \<bar>x\<bar> \<and> \<bar>x\<bar> < 2 powi (\<lfloor>log 2 \<bar>x\<bar>\<rfloor> + 1)"
proof -
  have "0 < \<bar>x\<bar>" using assms by simp
  then have "2 powr real_of_int \<lfloor>log 2 \<bar>x\<bar>\<rfloor> \<le> \<bar>x\<bar>
      \<and> \<bar>x\<bar> < 2 powr (real_of_int \<lfloor>log 2 \<bar>x\<bar>\<rfloor> + 1)"
    using floor_log_eq_powr_iff [of "\<bar>x\<bar>" 2 "\<lfloor>log 2 \<bar>x\<bar>\<rfloor>"] by simp
  moreover have "real_of_int \<lfloor>log 2 \<bar>x\<bar>\<rfloor> + 1 = real_of_int (\<lfloor>log 2 \<bar>x\<bar>\<rfloor> + 1)" by simp
  ultimately show ?thesis
    by (simp only: powr_real_of_int' [of 2, simplified] ) 
qed

lemma binade_unique:
  assumes "2 powi e \<le> \<bar>x\<bar>" and "\<bar>x\<bar> < 2 powi (e + 1)"
  shows "\<lfloor>log 2 \<bar>x\<bar>\<rfloor> = e"
proof -
  have pos: "0 < \<bar>x\<bar>"
    using assms(1) zero_less_power_int [of "2::real" e] by linarith
  have "2 powr real_of_int e \<le> \<bar>x\<bar> \<and> \<bar>x\<bar> < 2 powr (real_of_int e + 1)"
  proof -
    have "real_of_int e + 1 = real_of_int (e + 1)" by simp
    then show ?thesis
      using assms by (simp only: powr_real_of_int' [of 2, simplified])
  qed
  then show ?thesis
    using floor_log_eq_powr_iff [of "\<bar>x\<bar>" 2 e] pos by simp
qed

lemma ulp_exp_eq:
  assumes "2 powi e \<le> \<bar>x\<bar>" and "\<bar>x\<bar> < 2 powi (e + 1)"
  shows "ulp_exp x = max e (- 1022) - 52"
  using binade_unique [OF assms] by (simp add: ulp_exp_def)

lemma rnd_eval:
  assumes "2 powi e \<le> \<bar>x\<bar>" and "\<bar>x\<bar> < 2 powi (e + 1)"
  shows "rnd x = real_of_int (rne (x / 2 powi (max e (- 1022) - 52))) * 2 powi (max e (- 1022) - 52)"
proof -
  have "0 < \<bar>x\<bar>"
    using assms(1) zero_less_power_int [of "2::real" e] by linarith
  then have "x \<noteq> 0" by simp
  then show ?thesis
    by (simp add: rnd_def ulp_exp_eq [OF assms])
qed

lemma rnd_zero [simp]: "rnd 0 = 0"
  by (simp add: rnd_def)

lemma rnd_minus: "rnd (- x) = - rnd x"
  by (simp add: rnd_def ulp_exp_def rne_minus)

lemma pow2_pos: "0 < (2::real) powi k"
  by simp

lemma pow2_less_iff: "(2::real) powi a < 2 powi b \<longleftrightarrow> a < b"
proof
  assume l: "(2::real) powi a < 2 powi b"
  show "a < b"
  proof (rule ccontr)
    assume "\<not> a < b"
    then have "b \<le> a" by simp
    then have "(2::real) powi b \<le> 2 powi a" by (rule power_int_increasing) simp
    with l show False by simp
  qed
next
  assume "a < b"
  then show "(2::real) powi a < 2 powi b" by (rule power_int_strict_increasing) simp
qed

lemma pow2_le_iff: "(2::real) powi a \<le> 2 powi b \<longleftrightarrow> a \<le> b"
  using pow2_less_iff [of b a] by (simp add: not_less [symmetric])

lemma rnd_nonneg: "0 \<le> x \<Longrightarrow> 0 \<le> rnd x"
proof -
  assume x: "0 \<le> x"
  have "0 \<le> x / 2 powi ulp_exp x" using x by simp
  then have "rne 0 \<le> rne (x / 2 powi ulp_exp x)" by (rule rne_mono)
  then show ?thesis by (simp add: rnd_def)
qed

lemma rnd_nonpos: "x \<le> 0 \<Longrightarrow> rnd x \<le> 0"
  using rnd_nonneg [of "- x"] by (simp add: rnd_minus)

text \<open>Numbers with at most 53 significant bits and an exponent in range are doubles.\<close>

lemma rnd_exact:
  assumes m: "\<bar>m\<bar> < 2 ^ 53" and k: "- 1074 \<le> k"
  shows "rnd (real_of_int m * 2 powi k) = real_of_int m * 2 powi k"
proof (cases "m = 0")
  case True
  then show ?thesis by simp
next
  case False
  let ?x = "real_of_int m * 2 powi k"
  have x0: "?x \<noteq> 0" using False by simp
  let ?e = "\<lfloor>log 2 \<bar>?x\<bar>\<rfloor>"
  have "2 powi ?e \<le> \<bar>?x\<bar>" using binade [OF x0] by blast
  also have "\<bar>?x\<bar> = \<bar>real_of_int m\<bar> * 2 powi k" by (simp add: abs_mult)
  also have "\<dots> < 2 ^ 53 * 2 powi k"
  proof -
    have "real_of_int \<bar>m\<bar> < real_of_int (2 ^ 53)"
      using m by (simp only: of_int_less_iff)
    then have "\<bar>real_of_int m\<bar> < 2 ^ 53" by simp
    then show ?thesis by (simp add: mult_strict_right_mono)
  qed
  also have "\<dots> = 2 powi (53 + k)" by (simp add: power_int_add)
  finally have "2 powi ?e < (2::real) powi (53 + k)" .
  then have "?e < 53 + k"
    by (simp only: pow2_less_iff)
  then have ue: "ulp_exp ?x \<le> k" using k by (simp add: ulp_exp_def)
  define j where "j = nat (k - ulp_exp ?x)"
  have j: "k = ulp_exp ?x + int j" using ue by (simp add: j_def)
  have "?x / 2 powi ulp_exp ?x = real_of_int m * 2 powi (k - ulp_exp ?x)"
    by (simp add: power_int_diff)
  also have "\<dots> = real_of_int m * 2 powi int j"
  proof -
    have "k - ulp_exp ?x = int j" using j by simp
    then show ?thesis by (simp only:)
  qed
  also have "\<dots> = real_of_int (m * 2 ^ j)" by simp
  finally have "rne (?x / 2 powi ulp_exp ?x) = m * 2 ^ j" by (simp only: rne_of_int)
  then have "rnd ?x = real_of_int (m * 2 ^ j) * 2 powi ulp_exp ?x"
    using x0 by (simp only: rnd_def if_False)
  also have "\<dots> = real_of_int m * (2 powi int j * 2 powi ulp_exp ?x)" by simp
  also have "2 powi int j * (2::real) powi ulp_exp ?x = 2 powi k"
    using j by (simp add: power_int_add [symmetric] add.commute del: power_int_of_nat)
  finally show ?thesis .
qed

lemma rnd_int: "\<bar>n\<bar> < 2 ^ 53 \<Longrightarrow> rnd (real_of_int n) = real_of_int n"
  using rnd_exact [of n 0] by simp

lemma rnd_pow2: "- 1074 \<le> k \<Longrightarrow> rnd (2 powi k) = 2 powi k"
  using rnd_exact [of 1 k] by simp

lemma rnd_mono_pos:
  assumes x: "0 < x" and xy: "x \<le> y"
  shows "rnd x \<le> rnd y"
proof -
  have y: "0 < y" using x xy by simp
  have x0: "x \<noteq> 0" and y0: "y \<noteq> 0" using x y by simp_all
  let ?ex = "\<lfloor>log 2 \<bar>x\<bar>\<rfloor>" and ?ey = "\<lfloor>log 2 \<bar>y\<bar>\<rfloor>"
  have "log 2 \<bar>x\<bar> \<le> log 2 \<bar>y\<bar>" using x y xy by simp
  then have e: "?ex \<le> ?ey" by (rule floor_mono)
  then have u: "ulp_exp x \<le> ulp_exp y" by (simp add: ulp_exp_def)
  show ?thesis
  proof (cases "ulp_exp x = ulp_exp y")
    case True
    have "x / 2 powi ulp_exp y \<le> y / 2 powi ulp_exp y"
      using xy by (simp add: divide_right_mono)
    then have "rne (x / 2 powi ulp_exp y) \<le> rne (y / 2 powi ulp_exp y)" by (rule rne_mono)
    then have "real_of_int (rne (x / 2 powi ulp_exp y)) * 2 powi ulp_exp y
               \<le> real_of_int (rne (y / 2 powi ulp_exp y)) * 2 powi ulp_exp y"
      by (simp add: mult_right_mono)
    then show ?thesis using x0 y0 True by (simp add: rnd_def)
  next
    case False
    with u have lt: "ulp_exp x < ulp_exp y" by simp
    have ey: "ulp_exp y = ?ey - 52" using lt by (auto simp add: ulp_exp_def max_def split: if_splits)
    have ex: "?ex \<le> ulp_exp x + 52" by (simp add: ulp_exp_def)
    have "\<bar>x\<bar> < 2 powi (?ex + 1)" using binade [OF x0] by blast
    also have "\<dots> \<le> 2 powi (ulp_exp x + 53)" using ex by (simp only: pow2_le_iff)
    finally have "x < 2 powi (ulp_exp x + 53)" using x by simp
    then have "x / 2 powi ulp_exp x < 2 powi (ulp_exp x + 53) / 2 powi ulp_exp x"
      by (simp add: divide_strict_right_mono)
    also have "2 powi (ulp_exp x + 53) / 2 powi ulp_exp x = (2::real) powi 53"
      by (simp add: power_int_add)
    finally have "x / 2 powi ulp_exp x \<le> real_of_int (2 ^ 53)" by simp
    then have "rne (x / 2 powi ulp_exp x) \<le> rne (real_of_int (2 ^ 53))" by (rule rne_mono)
    then have "rne (x / 2 powi ulp_exp x) \<le> 2 ^ 53" by (simp only: rne_of_int)
    then have "real_of_int (rne (x / 2 powi ulp_exp x)) \<le> real_of_int (2 ^ 53)"
      by (simp only: of_int_le_iff)
    then have "real_of_int (rne (x / 2 powi ulp_exp x)) * 2 powi ulp_exp x
               \<le> real_of_int (2 ^ 53) * 2 powi ulp_exp x"
      by (rule mult_right_mono) simp
    also have "real_of_int (2 ^ 53) * 2 powi ulp_exp x = (2::real) powi (ulp_exp x + 53)"
      by (simp add: power_int_add)
    also have "\<dots> \<le> 2 powi ?ey" using lt ey by (simp only: pow2_le_iff)
    finally have lower: "rnd x \<le> 2 powi ?ey" using x0 by (simp add: rnd_def)
    have "2 powi ?ey \<le> \<bar>y\<bar>" using binade [OF y0] by blast
    then have "2 powi ?ey / 2 powi ulp_exp y \<le> y / 2 powi ulp_exp y"
      using y by (simp add: divide_right_mono)
    moreover have "2 powi ?ey / 2 powi ulp_exp y = real_of_int (2 ^ 52)"
      using ey by (simp add: power_int_diff [symmetric])
    ultimately have "rne (real_of_int (2 ^ 52)) \<le> rne (y / 2 powi ulp_exp y)"
      by (simp only: rne_mono)
    then have "2 ^ 52 \<le> rne (y / 2 powi ulp_exp y)" by (simp only: rne_of_int)
    then have "real_of_int (2 ^ 52) \<le> real_of_int (rne (y / 2 powi ulp_exp y))"
      by (simp only: of_int_le_iff)
    then have scaled: "real_of_int (2 ^ 52) * 2 powi ulp_exp y
               \<le> real_of_int (rne (y / 2 powi ulp_exp y)) * 2 powi ulp_exp y"
      by (rule mult_right_mono) simp
    have pw: "real_of_int (2 ^ 52) * 2 powi ulp_exp y = (2::real) powi ?ey"
      using ey by (simp add: power_int_diff)
    have ry: "rnd y = real_of_int (rne (y / 2 powi ulp_exp y)) * 2 powi ulp_exp y"
      using y0 by (simp add: rnd_def)
    have "2 powi ?ey \<le> rnd y" using scaled unfolding pw ry .
    with lower show ?thesis by simp
  qed
qed

lemma rnd_mono: "x \<le> y \<Longrightarrow> rnd x \<le> rnd y"
proof -
  assume xy: "x \<le> y"
  consider "0 < x" | "x \<le> 0" "0 \<le> y" | "y < 0" by linarith
  then show ?thesis
  proof cases
    case 1
    then show ?thesis using xy by (rule rnd_mono_pos)
  next
    case 2
    then show ?thesis using rnd_nonpos [of x] rnd_nonneg [of y] by simp
  next
    case 3
    then have "0 < - y" "- y \<le> - x" using xy by simp_all
    then have "rnd (- y) \<le> rnd (- x)" by (rule rnd_mono_pos)
    then show ?thesis by (simp add: rnd_minus)
  qed
qed

lemma rnd_abs_error: "\<bar>rnd x - x\<bar> \<le> 2 powi ulp_exp x / 2"
proof (cases "x = 0")
  case True
  then show ?thesis by simp
next
  case False
  let ?u = "(2::real) powi ulp_exp x"
  have u: "0 < ?u" by simp
  have "rnd x - x = (real_of_int (rne (x / ?u)) - x / ?u) * ?u"
    using False by (simp add: rnd_def algebra_simps)
  then have "\<bar>rnd x - x\<bar> = \<bar>real_of_int (rne (x / ?u)) - x / ?u\<bar> * ?u"
    by (simp add: abs_mult)
  also have "\<dots> \<le> 1 / 2 * ?u"
    using rne_error [of "x / ?u"] by (intro mult_right_mono) simp_all
  finally show ?thesis by simp
qed

lemma rnd_rel_error:
  assumes "2 powi (- 1022) \<le> \<bar>x\<bar>"
  shows "\<bar>rnd x - x\<bar> \<le> \<bar>x\<bar> / 2 ^ 53"
proof -
  have x0: "x \<noteq> 0"
  proof
    assume "x = 0"
    with assms have "(2::real) powi (- 1022) \<le> 0" by simp
    then show False using zero_less_power_int [of "2::real" "- 1022"] by linarith
  qed
  let ?e = "\<lfloor>log 2 \<bar>x\<bar>\<rfloor>"
  have b: "2 powi ?e \<le> \<bar>x\<bar>" "\<bar>x\<bar> < 2 powi (?e + 1)" using binade [OF x0] by blast+
  have "(2::real) powi (- 1022) < 2 powi (?e + 1)" using assms b(2) by linarith
  then have "- 1022 < ?e + 1" by (simp only: pow2_less_iff)
  then have ue: "ulp_exp x = ?e - 52" by (simp add: ulp_exp_def)
  have "2 powi ulp_exp x / 2 = (2::real) powi ?e / 2 ^ 53"
    by (simp add: ue power_int_diff)
  also have "\<dots> \<le> \<bar>x\<bar> / 2 ^ 53" using b(1) by (simp add: divide_right_mono)
  finally show ?thesis using rnd_abs_error [of x] by linarith
qed

lemma pow2_nat: "(2::real) ^ n = 2 powi int n"
  by simp

lemma rnd_le_pow2: "- 1074 \<le> k \<Longrightarrow> x \<le> 2 powi k \<Longrightarrow> rnd x \<le> 2 powi k"
  using rnd_mono [of x "2 powi k"] by (simp add: rnd_pow2)

lemma rnd_ge_pow2: "- 1074 \<le> k \<Longrightarrow> 2 powi k \<le> x \<Longrightarrow> 2 powi k \<le> rnd x"
  using rnd_mono [of "2 powi k" x] by (simp add: rnd_pow2)

lemma rnd_abs_le_pow2:
  assumes "- 1074 \<le> k" and "\<bar>x\<bar> \<le> 2 powi k"
  shows "\<bar>rnd x\<bar> \<le> 2 powi k"
proof -
  have "rnd x \<le> 2 powi k" using assms by (intro rnd_le_pow2) simp_all
  moreover have "rnd (- x) \<le> 2 powi k" using assms by (intro rnd_le_pow2) simp_all
  ultimately show ?thesis by (simp add: rnd_minus abs_le_iff)
qed

lemma fl_finite:
  assumes "\<bar>x\<bar> \<le> 2 powi 1023"
  shows "fl x = Fin (rnd x)"
proof -
  have "\<bar>rnd x\<bar> \<le> 2 powi 1023" using assms by (intro rnd_abs_le_pow2) simp_all
  moreover have "(2::real) powi 1023 < 2 powi 1024" by (simp only: pow2_less_iff)
  moreover have "(2::real) ^ 1024 = 2 powi 1024" by simp
  ultimately have "rnd x < 2 ^ 1024" "- (2 ^ 1024) < rnd x" by linarith+
  then show ?thesis by (simp add: fl_def Let_def)
qed

lemma pow2_le_big: "k \<le> 1023 \<Longrightarrow> (2::real) powi k \<le> 2 powi 1023"
  by (simp only: pow2_le_iff)

lemma fl_finite_pow2:
  assumes "\<bar>x\<bar> \<le> 2 powi k" and "k \<le> 1023"
  shows "fl x = Fin (rnd x)"
  using assms pow2_le_big [of k] by (intro fl_finite) linarith

lemma fl_int: "\<bar>n\<bar> < 2 ^ 53 \<Longrightarrow> fl (real_of_int n) = Fin (real_of_int n)"
proof -
  assume n: "\<bar>n\<bar> < 2 ^ 53"
  have "real_of_int \<bar>n\<bar> < real_of_int (2 ^ 53)" using n by (simp only: of_int_less_iff)
  then have "\<bar>real_of_int n\<bar> \<le> 2 powi 53" by simp
  then have "fl (real_of_int n) = Fin (rnd (real_of_int n))"
    by (rule fl_finite_pow2) simp
  then show ?thesis using n by (simp add: rnd_int)
qed

lemma float_of_int_exact: "\<bar>n\<bar> < 2 ^ 53 \<Longrightarrow> float_of_int n = Inr (Fin (real_of_int n))"
  by (simp add: float_of_int_def fl_int)

section \<open>The dimension resolver: precedence, results, zero targets\<close>















lemma rnd_one [simp]: "rnd 1 = 1"
  using rnd_int [of 1] by simp







text \<open>
  C10. A target of \<open>0\<close> counts as not given, for every original size: a request
  whose targets are \<open>0\<close> or absent, without a scale factor, returns the original
  size, and a target \<open>0\<close> beside any other target gives what the request without it
  gives.
\<close>

theorem get_new_dimensions_zero_target:
  "get_new_dimensions W H (Some 0) (Some 0) None ma = Inr (W, H)
   \<and> get_new_dimensions W H (Some 0) None None ma = Inr (W, H)
   \<and> get_new_dimensions W H None (Some 0) None ma = Inr (W, H)
   \<and> get_new_dimensions W H (Some 0) th None ma = get_new_dimensions W H None th None ma
   \<and> get_new_dimensions W H tw (Some 0) None ma = get_new_dimensions W H tw None None ma"
  by (simp add: get_new_dimensions_def truthy_def)

theorem get_new_dimensions_zero_target_witness:
  "get_new_dimensions 0 0 (Some 0) (Some 0) None True = Inr (0, 0)
   \<and> get_new_dimensions 800 600 (Some 0) None None True = Inr (800, 600)
   \<and> get_new_dimensions 800 600 None (Some 0) None False = Inr (800, 600)"
  using get_new_dimensions_zero_target [of 0 0 True None None]
    get_new_dimensions_zero_target [of 800 600 True None None]
    get_new_dimensions_zero_target [of 800 600 False None None]
  by simp

section \<open>The gamma lookup table\<close>

lemma collect_map_Inr:
  "(\<And>x. x \<in> set xs \<Longrightarrow> f x = Inr (g x)) \<Longrightarrow> collect (map f xs) = Inr (map g xs)"
  by (induction xs) simp_all

lemma fl_nonneg_cases:
  assumes "0 \<le> x"
  shows "fl x = PInf \<or> (fl x = Fin (rnd x) \<and> 0 \<le> rnd x)"
proof -
  have "0 \<le> rnd x" using assms by (rule rnd_nonneg)
  moreover have "(0::real) < 2 ^ 1024" by simp
  ultimately show ?thesis by (auto simp add: fl_def Let_def)
qed

lemma base_float:
  assumes "i < 256"
  shows "float_of_int (int i) = Inr (Fin (real i))"
    and "f_truediv (Fin (real i)) (Fin 255) = Inr (Fin (rnd (real i / 255)))"
proof -
  have "\<bar>int i\<bar> < 2 ^ 53" using assms by simp
  then show "float_of_int (int i) = Inr (Fin (real i))"
    using float_of_int_exact [of "int i"] by simp
  have "\<bar>real i / 255\<bar> \<le> 2 powi 1" using assms by simp
  then have "fl (real i / 255) = Fin (rnd (real i / 255))" by (rule fl_finite_pow2) simp
  then show "f_truediv (Fin (real i)) (Fin 255) = Inr (Fin (rnd (real i / 255)))"
    by (simp add: f_truediv_def)
qed

lemma base_mono: "i \<le> j \<Longrightarrow> rnd (real i / 255) \<le> rnd (real j / 255)"
  by (intro rnd_mono) (simp add: divide_right_mono)

lemma base_zero: "rnd (real 0 / 255) = 0"
  by simp

lemma base_one: "rnd (real 255 / 255) = 1"
  using rnd_int [of 1] by simp

lemma base_range: "i < 256 \<Longrightarrow> 0 \<le> rnd (real i / 255) \<and> rnd (real i / 255) \<le> 1"
proof -
  assume "i < 256"
  then have "i \<le> 255" by simp
  then have "rnd (real i / 255) \<le> rnd (real 255 / 255)" by (rule base_mono)
  moreover have "0 \<le> rnd (real i / 255)" by (intro rnd_nonneg) simp
  ultimately show ?thesis by (simp only: base_one)
qed

lemma base_pos:
  assumes "0 < i"
  shows "0 < rnd (real i / 255)"
proof -
  have "(2::real) powi (- 8) = 1 / 256" by simp
  moreover have "(1::real) / 256 \<le> real i / 255" using assms by (simp add: field_simps)
  ultimately have "2 powi (- 8) \<le> real i / 255" by simp
  then have "2 powi (- 8) \<le> rnd (real i / 255)" by (intro rnd_ge_pow2) simp_all
  then show ?thesis using zero_less_power_int [of "2::real" "- 8"] by linarith
qed

lemma base_below_one:
  assumes "i < 255"
  shows "rnd (real i / 255) < 1"
proof -
  have e: "rnd (real_of_int 255 * 2 powi (- 8)) = real_of_int 255 * 2 powi (- 8)"
    by (rule rnd_exact) simp_all
  have "real i / 255 \<le> 254 / 255" using assms by (simp add: field_simps)
  also have "(254::real) / 255 \<le> real_of_int 255 * 2 powi (- 8)" by simp
  finally have "rnd (real i / 255) \<le> rnd (real_of_int 255 * 2 powi (- 8))" by (rule rnd_mono)
  then show ?thesis unfolding e by simp
qed

lemma float_255: "float_of_int 255 = Inr (Fin 255)"
  using float_of_int_exact [of 255] by simp

lemma times_255:
  assumes "0 \<le> p" and "p \<le> 1"
  shows "fl (p * 255) = Fin (rnd (p * 255))"
    and "0 \<le> rnd (p * 255)" and "rnd (p * 255) \<le> 255"
proof -
  have "\<bar>p * 255\<bar> \<le> 2 powi 8" using assms by simp
  then show "fl (p * 255) = Fin (rnd (p * 255))" by (rule fl_finite_pow2) simp
  show "0 \<le> rnd (p * 255)" using assms by (intro rnd_nonneg) simp
  have "rnd (p * 255) \<le> rnd (real_of_int 255)" using assms by (intro rnd_mono) simp
  then show "rnd (p * 255) \<le> 255" using rnd_int [of 255] by simp
qed

lemma inv_gamma_positive:
  assumes "f_less (Fin 0) gamma"
  shows "\<exists>w. f_truediv (Fin 1) gamma = Inr w \<and> inv_ok w"
proof (cases gamma)
  case (Fin g)
  then have g: "0 < g" using assms by simp
  then have "fl (1 / g) = PInf \<or> (fl (1 / g) = Fin (rnd (1 / g)) \<and> 0 \<le> rnd (1 / g))"
    by (intro fl_nonneg_cases) simp
  then show ?thesis using Fin g by (auto simp add: f_truediv_def inv_ok_def)
next
  case PInf
  then show ?thesis by (simp add: f_truediv_def inv_ok_def)
next
  case NInf
  then show ?thesis using assms by simp
next
  case NaN
  then show ?thesis using assms by simp
qed

lemma py_pow_unit:
  assumes u: "libm_pow_in_unit pw" and w: "inv_ok w" and x: "0 \<le> x" "x \<le> 1"
  shows "py_pow pw (Fin x) w = Inr (Fin (pow_value pw w x))
         \<and> 0 \<le> pow_value pw w x \<and> pow_value pw w x \<le> 1"
proof -
  consider "w = PInf" | "w = Fin 0" | r where "w = Fin r" "0 < r"
    using w by (auto simp add: inv_ok_def less_le)
  then show ?thesis
  proof cases
    case 1
    then show ?thesis using x by (simp add: py_pow_def pow_value_def)
  next
    case 2
    then show ?thesis by (simp add: py_pow_def pow_value_def)
  next
    case 3
    show ?thesis
    proof (cases "x = 0 \<or> x = 1")
      case True
      then show ?thesis using 3 by (auto simp add: py_pow_def pow_value_def)
    next
      case False
      then have "0 < x \<and> x < 1 \<and> 0 < r" using x 3 by simp
      then obtain p where "pw x r = Fin p" "0 \<le> p" "p \<le> 1"
        using u unfolding libm_pow_in_unit_def by blast
      then show ?thesis using 3 False x by (simp add: py_pow_def pow_value_def)
    qed
  qed
qed

lemma pow_value_mono:
  assumes u: "libm_pow_in_unit pw" and m: "libm_pow_monotone pw" and w: "inv_ok w"
    and x: "0 \<le> x" "x \<le> x'" "x' \<le> 1"
  shows "pow_value pw w x \<le> pow_value pw w x'"
proof -
  have x1: "x \<le> 1" and x0: "0 \<le> x'" using x by simp_all
  note px = py_pow_unit [OF u w x(1) x1] and px' = py_pow_unit [OF u w x0 x(3)]
  consider "w = PInf" | "w = Fin 0" | r where "w = Fin r" "0 < r"
    using w by (auto simp add: inv_ok_def less_le)
  then show ?thesis
  proof cases
    case 1
    then show ?thesis using x by (auto simp add: py_pow_def pow_value_def)
  next
    case 2
    then show ?thesis by (simp add: py_pow_def pow_value_def)
  next
    case 3
    show ?thesis
    proof (cases "x = 0 \<or> x' = 1")
      case True
      then show ?thesis
      proof
        assume "x = 0"
        then have "pow_value pw w x = 0" using 3 by (simp add: py_pow_def pow_value_def)
        then show ?thesis using px' by simp
      next
        assume "x' = 1"
        then have "pow_value pw w x' = 1" using 3 by (simp add: py_pow_def pow_value_def)
        then show ?thesis using px by simp
      qed
    next
      case False
      then have r: "0 < x \<and> x \<le> x' \<and> x' < 1 \<and> 0 < r" using x 3 by simp
      then have "x \<noteq> 0" "x \<noteq> 1" "x' \<noteq> 0" "x' \<noteq> 1" "\<not> x < 0" "\<not> x' < 0" by simp_all
      then have "py_pow pw (Fin x) w = (case pw x r of Fin p \<Rightarrow> Inr (Fin p)
                     | PInf \<Rightarrow> Inl OverflowError | NInf \<Rightarrow> Inl OverflowError
                     | NaN \<Rightarrow> Inl ValueError)"
        and "py_pow pw (Fin x') w = (case pw x' r of Fin p \<Rightarrow> Inr (Fin p)
                     | PInf \<Rightarrow> Inl OverflowError | NInf \<Rightarrow> Inl OverflowError
                     | NaN \<Rightarrow> Inl ValueError)"
        using 3 by (simp_all add: py_pow_def)
      then have "pw x r = Fin (pow_value pw w x)" "pw x' r = Fin (pow_value pw w x')"
        using px px' by (auto split: pyfloat.splits)
      then show ?thesis
        using m r unfolding libm_pow_monotone_def by blast
    qed
  qed
qed

lemma gamma_entry_value:
  assumes u: "libm_pow_in_unit pw" and w: "inv_ok w" and i: "i < 256"
  shows "gamma_entry pw w i = Inr (Fin (rnd (pow_value pw w (rnd (real i / 255)) * 255)))"
proof -
  have b: "0 \<le> rnd (real i / 255)" "rnd (real i / 255) \<le> 1"
    using base_range [OF i] by blast+
  have p: "py_pow pw (Fin (rnd (real i / 255))) w
           = Inr (Fin (pow_value pw w (rnd (real i / 255))))"
    and r: "0 \<le> pow_value pw w (rnd (real i / 255))" "pow_value pw w (rnd (real i / 255)) \<le> 1"
    using py_pow_unit [OF u w b] by blast+
  show ?thesis
    by (simp add: gamma_entry_def base_float [OF i] p float_255 times_255 (1) [OF r] py_then_def)
qed

lemma gamma_table_value:
  assumes u: "libm_pow_in_unit pw" and w: "inv_ok w" and d: "f_truediv (Fin 1) gamma = Inr w"
  shows "gamma_lookup_table pw gamma
         = Inr (map (\<lambda>i. astype_uint8 (Fin (rnd (pow_value pw w (rnd (real i / 255)) * 255))))
                 [0..<256])"
proof -
  have "collect (map (gamma_entry pw w) [0..<256])
        = Inr (map (\<lambda>i. Fin (rnd (pow_value pw w (rnd (real i / 255)) * 255))) [0..<256])"
    by (rule collect_map_Inr) (simp add: gamma_entry_value [OF u w])
  then show ?thesis
    by (simp add: gamma_lookup_table_def d py_then_def create_lookup_table_def comp_def)
qed

lemma uint_astype_uint8:
  assumes "0 \<le> x" and "x \<le> 255"
  shows "uint (astype_uint8 (Fin x)) = \<lfloor>x\<rfloor>"
proof -
  have f: "0 \<le> \<lfloor>x\<rfloor>" "\<lfloor>x\<rfloor> < 256" using assms by (simp_all add: floor_less_iff)
  have "uint (word_of_int \<lfloor>x\<rfloor> :: 8 word) = \<lfloor>x\<rfloor> mod 256"
    by (simp add: uint_word_of_int)
  then have "uint (word_of_int \<lfloor>x\<rfloor> :: 8 word) = \<lfloor>x\<rfloor>" using f by simp
  then show ?thesis using assms by (simp add: truncate_real_def)
qed

lemma entry_mono:
  assumes u: "libm_pow_in_unit pw" and m: "libm_pow_monotone pw" and w: "inv_ok w"
    and ij: "i \<le> j" "j < 256"
  shows "astype_uint8 (Fin (rnd (pow_value pw w (rnd (real i / 255)) * 255)))
         \<le> astype_uint8 (Fin (rnd (pow_value pw w (rnd (real j / 255)) * 255)))"
proof -
  have i: "i < 256" using ij by simp
  let ?p = "\<lambda>k. pow_value pw w (rnd (real k / 255))"
  have bi: "0 \<le> rnd (real i / 255)" "rnd (real i / 255) \<le> 1" using base_range [OF i] by blast+
  have bj: "0 \<le> rnd (real j / 255)" "rnd (real j / 255) \<le> 1"
    using base_range [OF ij(2)] by blast+
  have pi: "0 \<le> ?p i" "?p i \<le> 1" using py_pow_unit [OF u w bi] by blast+
  have pj: "0 \<le> ?p j" "?p j \<le> 1" using py_pow_unit [OF u w bj] by blast+
  have "?p i \<le> ?p j"
    by (rule pow_value_mono [OF u m w bi(1) base_mono [OF ij(1)] bj(2)])
  then have "rnd (?p i * 255) \<le> rnd (?p j * 255)" by (intro rnd_mono) simp
  then have "\<lfloor>rnd (?p i * 255)\<rfloor> \<le> \<lfloor>rnd (?p j * 255)\<rfloor>" by (rule floor_mono)
  moreover have "uint (astype_uint8 (Fin (rnd (?p i * 255)))) = \<lfloor>rnd (?p i * 255)\<rfloor>"
    by (rule uint_astype_uint8 [OF times_255 (2,3) [OF pi]])
  moreover have "uint (astype_uint8 (Fin (rnd (?p j * 255)))) = \<lfloor>rnd (?p j * 255)\<rfloor>"
    by (rule uint_astype_uint8 [OF times_255 (2,3) [OF pj]])
  ultimately show ?thesis by (simp only: word_le_def)
qed

text \<open>
  C5. For every \<open>\<gamma> > 0\<close>, a positive finite float or \<open>+inf\<close>, the table is built
  and is monotonically non-decreasing: \<open>table[i] \<le> table[j]\<close> for all \<open>i \<le> j\<close>
  in \<open>0..255\<close> (unsigned order). The C library's \<open>pow\<close>, which computes the
  entries 1 to 254 for a finite exponent, is taken to stay between 0 and 1 and not
  to decrease with its base.
\<close>

theorem gamma_lookup_table_monotone:
  "libm_pow_in_unit pw \<Longrightarrow> libm_pow_monotone pw \<Longrightarrow> f_less (Fin 0) gamma \<Longrightarrow>
     \<exists>t. gamma_lookup_table pw gamma = Inr t \<and> length t = 256
       \<and> (\<forall>i j. i \<le> j \<and> j < 256 \<longrightarrow> t ! i \<le> t ! j)"
proof -
  assume u: "libm_pow_in_unit pw" and m: "libm_pow_monotone pw" and g: "f_less (Fin 0) gamma"
  obtain w where d: "f_truediv (Fin 1) gamma = Inr w" and w: "inv_ok w"
    using inv_gamma_positive [OF g] by blast
  let ?t = "map (\<lambda>i. astype_uint8 (Fin (rnd (pow_value pw w (rnd (real i / 255)) * 255))))
              [0..<256]"
  have t: "gamma_lookup_table pw gamma = Inr ?t" by (rule gamma_table_value [OF u w d])
  have mono: "?t ! i \<le> ?t ! j" if "i \<le> j" and "j < 256" for i j
  proof -
    have "i < 256" using that by simp
    then show ?thesis using that entry_mono [OF u m w that] by simp
  qed
  show ?thesis using t mono by auto
qed

lemma unit_identity: "libm_pow_in_unit (\<lambda>x y. Fin x)"
  by (simp add: libm_pow_in_unit_def)

lemma monotone_identity: "libm_pow_monotone (\<lambda>x y. Fin x)"
  by (simp add: libm_pow_monotone_def)

text \<open>
  A \<open>pow\<close> that returns its base (as the real one does for the exponent 1) is such a
  library function; the theorem at \<open>\<gamma> = 2\<close> and at \<open>\<gamma> = +inf\<close>.
\<close>

theorem gamma_lookup_table_monotone_witness:
  "libm_pow_in_unit (\<lambda>x y. Fin x) \<and> libm_pow_monotone (\<lambda>x y. Fin x)
   \<and> f_less (Fin 0) (Fin 2) \<and> f_less (Fin 0) PInf
   \<and> (\<exists>t. gamma_lookup_table (\<lambda>x y. Fin x) (Fin 2) = Inr t \<and> length t = 256
          \<and> t ! 3 \<le> t ! 250)
   \<and> (\<exists>t. gamma_lookup_table (\<lambda>x y. Fin x) PInf = Inr t \<and> length t = 256
          \<and> t ! 0 \<le> t ! 255)"
proof -
  have two: "f_less (Fin 0) (Fin 2)" and inf: "f_less (Fin 0) PInf" by simp_all
  have h: "(3::nat) \<le> 250 \<and> (250::nat) < 256" "(0::nat) \<le> 255 \<and> (255::nat) < 256" by simp_all
  have a: "\<exists>t. gamma_lookup_table (\<lambda>x y. Fin x) (Fin 2) = Inr t \<and> length t = 256
          \<and> t ! 3 \<le> t ! 250"
    using gamma_lookup_table_monotone [OF unit_identity monotone_identity two] h(1) by metis
  have b: "\<exists>t. gamma_lookup_table (\<lambda>x y. Fin x) PInf = Inr t \<and> length t = 256
          \<and> t ! 0 \<le> t ! 255"
    using gamma_lookup_table_monotone [OF unit_identity monotone_identity inf] h(2) by metis
  show ?thesis using unit_identity monotone_identity two inf a b by (simp only: simp_thms)
qed

lemma table_zero_exponent:
  assumes "f_truediv (Fin 1) gamma = Inr (Fin 0)"
  shows "gamma_lookup_table pw gamma = Inr (replicate 256 255)"
proof -
  have e: "gamma_entry pw (Fin 0) i = Inr (Fin 255)" if "i < 256" for i
  proof -
    have "fl 255 = Fin 255" using fl_int [of 255] by simp
    then show ?thesis
      by (simp add: gamma_entry_def base_float [OF that] float_255 py_pow_def py_then_def)
  qed
  have "collect (map (gamma_entry pw (Fin 0)) [0..<256]) = Inr (map (\<lambda>i. Fin 255) [0..<256])"
    by (rule collect_map_Inr) (simp add: e)
  moreover have "map (\<lambda>i. astype_uint8 (Fin 255)) [0..<256] = replicate 256 (255 :: 8 word)"
    by (simp add: map_replicate_const truncate_real_def)
  ultimately show ?thesis
    by (simp add: gamma_lookup_table_def assms py_then_def create_lookup_table_def comp_def)
qed

text \<open>
  C3 as the specification words it fails at the float \<open>+inf\<close>, a gamma above 0:
  \<open>1.0 / inf\<close> is \<open>0.0\<close>, \<open>x ** 0.0\<close> is \<open>1.0\<close> for every \<open>x\<close>, and every
  entry of the table, entry 0 too, is 255. The C library is not called.
\<close>

theorem gamma_infinite_counterexample:
  "f_less (Fin 0) PInf
   \<and> gamma_lookup_table (\<lambda>x y. NaN) PInf = Inr (replicate 256 255)
   \<and> replicate 256 (255 :: 8 word) ! 0 = 255
   \<and> (255 :: 8 word) \<noteq> 0"
proof -
  have "f_truediv (Fin 1) PInf = Inr (Fin 0)" by (simp add: f_truediv_def)
  then have "gamma_lookup_table (\<lambda>x y. NaN) PInf = Inr (replicate 256 255)"
    by (rule table_zero_exponent)
  then show ?thesis by simp
qed

text \<open>
  C4 as the specification words it fails at the float \<open>-inf\<close>, a gamma below 0:
  \<open>1.0 / -inf\<close> is a zero, \<open>x ** 0.0\<close> is \<open>1.0\<close> for every \<open>x\<close>, nothing is
  raised, and \<open>process\<close> maps every sample to 255.
\<close>

theorem gamma_minus_infinity_counterexample:
  "f_less NInf (Fin 0)
   \<and> gamma_lookup_table (\<lambda>x y. NaN) NInf = Inr (replicate 256 255)
   \<and> GammaAdjuster_process (\<lambda>x y. NaN) (Fin 1)
        (NdArray \<lparr>shape = [1, 2], data = [10, 200]\<rparr>) (Some NInf)
       = Inr \<lparr>shape = [1, 2], data = [255, 255]\<rparr>"
proof -
  have "f_truediv (Fin 1) NInf = Inr (Fin 0)" by (simp add: f_truediv_def)
  then have t: "gamma_lookup_table (\<lambda>x y. NaN) NInf = Inr (replicate 256 255)"
    by (rule table_zero_exponent)
  then show ?thesis
    by (simp add: GammaAdjuster_process_def validate_input_def cv2_LUT_def)
qed

lemma inv_gamma_finite:
  assumes g: "0 < g" "g < 2 ^ 1024"
  shows "\<exists>w. f_truediv (Fin 1) (Fin g) = Inr w \<and> inv_ok w \<and> w \<noteq> Fin 0"
proof -
  have "g < 2 powi 1024" using g(2) by simp
  then have "1 / 2 powi 1024 \<le> 1 / g" using g(1) by (intro divide_left_mono) simp_all
  then have "2 powi (- 1024) \<le> 1 / g" by (simp add: power_int_minus_divide)
  then have "2 powi (- 1024) \<le> rnd (1 / g)" by (intro rnd_ge_pow2) simp_all
  then have pos: "0 < rnd (1 / g)" using zero_less_power_int [of "2::real" "- 1024"] by linarith
  have "fl (1 / g) = PInf \<or> (fl (1 / g) = Fin (rnd (1 / g)) \<and> 0 \<le> rnd (1 / g))"
    using g(1) by (intro fl_nonneg_cases) simp
  then show ?thesis using g(1) pos by (auto simp add: f_truediv_def inv_ok_def)
qed

lemma pow_value_zero:
  assumes "inv_ok w" and "w \<noteq> Fin 0"
  shows "pow_value pw w 0 = 0"
  using assms by (auto simp add: inv_ok_def pow_value_def py_pow_def)

lemma identity_tolerance:
  assumes i: "i < 256"
  shows "int i - 1 \<le> \<lfloor>rnd (rnd (real i / 255) * 255)\<rfloor>
         \<and> \<lfloor>rnd (rnd (real i / 255) * 255)\<rfloor> \<le> int i"
proof (cases "i = 0")
  case True
  then show ?thesis by simp
next
  case False
  let ?b = "rnd (real i / 255)"
  have i1: "1 \<le> real i" "real i \<le> 255" using False i by simp_all
  have "(2::real) powi (- 1022) \<le> 2 powi (- 8)" by (simp only: pow2_le_iff)
  also have "(2::real) powi (- 8) = 1 / 256" by simp
  also have "(1::real) / 256 \<le> real i / 255" using i1 by (simp add: field_simps)
  finally have "2 powi (- 1022) \<le> \<bar>real i / 255\<bar>" by simp
  then have "\<bar>?b - real i / 255\<bar> \<le> \<bar>real i / 255\<bar> / 2 ^ 53" by (rule rnd_rel_error)
  then have "\<bar>?b * 255 - real i\<bar> \<le> real i / 2 ^ 53"
    by (simp add: abs_le_iff field_simps)
  also have "real i / 2 ^ 53 \<le> 256 / 2 ^ 53" using i1 by (simp add: divide_right_mono)
  also have "(256::real) / 2 ^ 53 = 2 powi (- 45)" by simp
  finally have near: "\<bar>?b * 255 - real i\<bar> \<le> 2 powi (- 45)" .
  let ?lo = "real_of_int (int i * 2 ^ 45 - 1) * 2 powi (- 45)"
  let ?hi = "real_of_int (int i * 2 ^ 45 + 1) * 2 powi (- 45)"
  have m: "\<bar>int i * 2 ^ 45 - 1\<bar> < 2 ^ 53" "\<bar>int i * 2 ^ 45 + 1\<bar> < 2 ^ 53"
    using i False by simp_all
  have lo: "?lo = real i - 2 powi (- 45)" and hi: "?hi = real i + 2 powi (- 45)"
    by (simp_all add: algebra_simps)
  have elo: "rnd (real i - 2 powi (- 45)) = real i - 2 powi (- 45)"
    using rnd_exact [OF m(1), of "- 45"] unfolding lo by simp
  have ehi: "rnd (real i + 2 powi (- 45)) = real i + 2 powi (- 45)"
    using rnd_exact [OF m(2), of "- 45"] unfolding hi by simp
  have "real i - 2 powi (- 45) \<le> ?b * 255" using near by linarith
  then have "rnd (real i - 2 powi (- 45)) \<le> rnd (?b * 255)" by (rule rnd_mono)
  then have b1: "real i - 2 powi (- 45) \<le> rnd (?b * 255)" unfolding elo .
  have "?b * 255 \<le> real i + 2 powi (- 45)" using near by linarith
  then have "rnd (?b * 255) \<le> rnd (real i + 2 powi (- 45))" by (rule rnd_mono)
  then have b2: "rnd (?b * 255) \<le> real i + 2 powi (- 45)" unfolding ehi .
  note b = b1 b2
  have small: "(2::real) powi (- 45) < 1"
  proof -
    have "(2::real) powi (- 45) < 2 powi 0" by (simp only: pow2_less_iff)
    then show ?thesis by simp
  qed
  have "real_of_int (int i - 1) \<le> rnd (?b * 255)" using b(1) small by simp
  then have l: "int i - 1 \<le> \<lfloor>rnd (?b * 255)\<rfloor>" by (simp only: le_floor_iff)
  have "rnd (?b * 255) < real_of_int (int i) + 1" using b(2) small by simp
  then have "\<lfloor>rnd (?b * 255)\<rfloor> \<le> int i" by (simp add: floor_le_iff)
  with l show ?thesis by simp
qed

lemma process_copy_at_one:
  "validate_image (NdArray a) \<Longrightarrow>
   GammaAdjuster_process pw d (NdArray a) (Some (Fin 1)) = Inr a"
  by (simp add: GammaAdjuster_process_def validate_input_def)

text \<open>
  C3 (as the code has it). For every finite \<open>\<gamma> > 0\<close> (below \<open>2\<^sup>1\<^sup>0\<^sup>2\<^sup>4\<close>, as
  every finite float is) the table is built without an error and has exactly 256
  entries of 8 bits; entry \<open>i\<close> is the truncation of the float
  \<open>((i / 255.0) ** (1.0 / \<gamma>)) * 255\<close>, computed in binary64 with a power \<open>p\<close>
  between 0 and 1, so that the conversion to 8 bits never wraps. Entry 0 is 0. At
  \<open>\<gamma> = 1\<close>, where the C library's \<open>pow\<close> returns its base, entry \<open>i\<close> is \<open>i\<close>
  or \<open>i - 1\<close>, and \<open>process\<close> itself returns the image unchanged without
  building a table. The C library's \<open>pow\<close> is taken to stay between 0 and 1 on a
  base between 0 and 1 and a positive exponent.
\<close>

theorem gamma_lookup_table_entries:
  "libm_pow_in_unit pw \<Longrightarrow> 0 < g \<Longrightarrow> g < 2 ^ 1024 \<Longrightarrow>
     \<exists>t w. f_truediv (Fin 1) (Fin g) = Inr w
       \<and> gamma_lookup_table pw (Fin g) = Inr t \<and> length t = 256
       \<and> (\<forall>i<256. \<exists>p. py_pow pw (Fin (rnd (real i / 255))) w = Inr (Fin p)
                  \<and> 0 \<le> p \<and> p \<le> 1
                  \<and> t ! i = astype_uint8 (Fin (rnd (p * 255)))
                  \<and> uint (t ! i) = \<lfloor>rnd (p * 255)\<rfloor>)
       \<and> t ! 0 = 0
       \<and> (g = 1 \<and> (\<forall>x. 0 < x \<and> x < 1 \<longrightarrow> pw x 1 = Fin x) \<longrightarrow>
            (\<forall>i<256. int i - 1 \<le> uint (t ! i) \<and> uint (t ! i) \<le> int i))
       \<and> (validate_image (NdArray a) \<longrightarrow>
            GammaAdjuster_process pw d (NdArray a) (Some (Fin 1)) = Inr a)"
proof -
  assume u: "libm_pow_in_unit pw" and g: "0 < g" "g < 2 ^ 1024"
  obtain w where d: "f_truediv (Fin 1) (Fin g) = Inr w" and w: "inv_ok w" and w0: "w \<noteq> Fin 0"
    using inv_gamma_finite [OF g] by blast
  let ?p = "\<lambda>i. pow_value pw w (rnd (real i / 255))"
  let ?t = "map (\<lambda>i. astype_uint8 (Fin (rnd (?p i * 255)))) [0..<256]"
  have t: "gamma_lookup_table pw (Fin g) = Inr ?t" by (rule gamma_table_value [OF u w d])
  have len: "length ?t = 256" by simp
  have nth: "?t ! i = astype_uint8 (Fin (rnd (?p i * 255)))" if "i < 256" for i
    using that by simp
  have pw: "py_pow pw (Fin (rnd (real i / 255))) w = Inr (Fin (?p i))"
    and pr: "0 \<le> ?p i" "?p i \<le> 1" if "i < 256" for i
  proof -
    have b: "0 \<le> rnd (real i / 255)" "rnd (real i / 255) \<le> 1"
      using base_range [OF that] by blast+
    show "py_pow pw (Fin (rnd (real i / 255))) w = Inr (Fin (?p i))" "0 \<le> ?p i" "?p i \<le> 1"
      using py_pow_unit [OF u w b] by blast+
  qed
  have val: "uint (?t ! i) = \<lfloor>rnd (?p i * 255)\<rfloor>" if "i < 256" for i
  proof -
    have "uint (astype_uint8 (Fin (rnd (?p i * 255)))) = \<lfloor>rnd (?p i * 255)\<rfloor>"
      by (rule uint_astype_uint8 [OF times_255 (2,3) [OF pr [OF that]]])
    then show ?thesis unfolding nth [OF that] .
  qed
  have entries: "\<forall>i<256. \<exists>p. py_pow pw (Fin (rnd (real i / 255))) w = Inr (Fin p)
                  \<and> 0 \<le> p \<and> p \<le> 1
                  \<and> ?t ! i = astype_uint8 (Fin (rnd (p * 255)))
                  \<and> uint (?t ! i) = \<lfloor>rnd (p * 255)\<rfloor>"
    using pw pr nth val by blast
  have zero: "?t ! 0 = 0"
    using nth [of 0] pow_value_zero [OF w w0, of pw] by (simp add: truncate_real_def)
  have ident: "\<forall>i<256. int i - 1 \<le> uint (?t ! i) \<and> uint (?t ! i) \<le> int i"
    if h: "g = 1 \<and> (\<forall>x. 0 < x \<and> x < 1 \<longrightarrow> pw x 1 = Fin x)"
  proof (intro allI impI)
    fix i :: nat
    assume i: "i < 256"
    have "fl 1 = Fin 1" using fl_int [of 1] by simp
    then have w1: "w = Fin 1" using d h by (simp add: f_truediv_def)
    have b: "0 \<le> rnd (real i / 255)" "rnd (real i / 255) \<le> 1"
      using base_range [OF i] by blast+
    have "?p i = rnd (real i / 255)"
      using b h by (auto simp add: w1 pow_value_def py_pow_def)
    then have "uint (?t ! i) = \<lfloor>rnd (rnd (real i / 255) * 255)\<rfloor>"
      using val [OF i] by simp
    then show "int i - 1 \<le> uint (?t ! i) \<and> uint (?t ! i) \<le> int i"
      using identity_tolerance [OF i] by simp
  qed
  show ?thesis
    using d t len entries zero ident process_copy_at_one by blast
qed

text \<open>
  The theorem at \<open>\<gamma> = 1\<close> with a \<open>pow\<close> that returns its base.
\<close>

theorem gamma_lookup_table_entries_witness:
  "libm_pow_in_unit (\<lambda>x y. Fin x) \<and> (0::real) < 1 \<and> (1::real) < 2 ^ 1024
   \<and> validate_image (NdArray \<lparr>shape = [1, 2], data = [10, 200]\<rparr>)
   \<and> (\<exists>t. gamma_lookup_table (\<lambda>x y. Fin x) (Fin 1) = Inr t \<and> length t = 256 \<and> t ! 0 = 0
          \<and> 199 \<le> uint (t ! 200) \<and> uint (t ! 200) \<le> 200)
   \<and> GammaAdjuster_process (\<lambda>x y. Fin x) (Fin 3)
        (NdArray \<lparr>shape = [1, 2], data = [10, 200]\<rparr>) (Some (Fin 1))
       = Inr \<lparr>shape = [1, 2], data = [10, 200]\<rparr>"
proof -
  have one: "(0::real) < 1" and big: "(1::real) < 2 ^ 1024" by simp_all
  have h: "(200::nat) < 256" by simp
  have idp: "(1::real) = 1 \<and> (\<forall>x::real. 0 < x \<and> x < 1 \<longrightarrow> (\<lambda>x y. Fin x) x (1::real) = Fin x)"
    by simp
  have v: "validate_image (NdArray \<lparr>shape = [1, 2], data = [10, 200]\<rparr>)" by simp
  obtain t w where "f_truediv (Fin 1) (Fin 1) = Inr w"
    and t: "gamma_lookup_table (\<lambda>x y. Fin x) (Fin 1) = Inr t" "length t = 256"
      "t ! 0 = 0"
    and tol: "(1::real) = 1 \<and> (\<forall>x::real. 0 < x \<and> x < 1 \<longrightarrow> (\<lambda>x y. Fin x) x (1::real) = Fin x)
        \<longrightarrow> (\<forall>i<256. int i - 1 \<le> uint (t ! i) \<and> uint (t ! i) \<le> int i)"
    and cp: "validate_image (NdArray \<lparr>shape = [1, 2], data = [10, 200]\<rparr>) \<longrightarrow>
        GammaAdjuster_process (\<lambda>x y. Fin x) (Fin 3)
          (NdArray \<lparr>shape = [1, 2], data = [10, 200]\<rparr>) (Some (Fin 1))
        = Inr \<lparr>shape = [1, 2], data = [10, 200]\<rparr>"
    using gamma_lookup_table_entries [OF unit_identity one big,
        of "\<lparr>shape = [1, 2], data = [10, 200]\<rparr>" "Fin 3"]
    by blast
  have "int 200 - 1 \<le> uint (t ! 200) \<and> uint (t ! 200) \<le> int 200"
    using tol idp h by blast
  then have "199 \<le> uint (t ! 200) \<and> uint (t ! 200) \<le> 200" by simp
  then show ?thesis using unit_identity one big v t cp by blast
qed

text \<open>
  C4 (as the code has it). For \<open>\<gamma> = 0\<close> and for every negative \<open>\<gamma>\<close> whose
  reciprocal is a finite float other than zero (every \<open>\<gamma>\<close> with
  \<open>2\<^sup>-\<^sup>1\<^sup>0\<^sup>2\<^sup>3 \<le> \<bar>\<gamma>\<bar> < 2\<^sup>1\<^sup>0\<^sup>2\<^sup>4\<close>) no table is produced: building it raises out
  of the arithmetic (\<open>1.0 / gamma\<close> at \<open>\<gamma> = 0\<close>, \<open>0.0 ** inv_gamma\<close> at the
  first entry for \<open>\<gamma> < 0\<close>; Python's \<open>ZeroDivisionError\<close> in both cases),
  and so does \<open>process\<close>, at once, whether \<open>\<gamma>\<close> is the argument or the default
  of the object. There is no check of gamma. On an input that is not a valid image
  \<open>process\<close> has already raised \<open>ValueError\<close>.
\<close>

theorem gamma_nonpositive_fails:
  "g = 0 \<or> (- (2 ^ 1024) < g \<and> g \<le> - (2 powi (- 1023))) \<Longrightarrow>
     gamma_lookup_table pw (Fin g) = Inl ZeroDivisionError
   \<and> (\<exists>e. GammaAdjuster_process pw d img (Some (Fin g)) = Inl e)
   \<and> (\<exists>e. GammaAdjuster_process pw (Fin g) img None = Inl e)
   \<and> (validate_image img \<longrightarrow>
        GammaAdjuster_process pw d img (Some (Fin g)) = Inl ZeroDivisionError
        \<and> GammaAdjuster_process pw (Fin g) img None = Inl ZeroDivisionError)"
proof -
  assume g: "g = 0 \<or> (- (2 ^ 1024) < g \<and> g \<le> - (2 powi (- 1023)))"
  have upt: "[0..<256] = 0 # [1..<256]" by (simp add: upt_conv_Cons)
  have t: "gamma_lookup_table pw (Fin g) = Inl ZeroDivisionError"
  proof (cases "g = 0")
    case True
    then show ?thesis by (simp add: gamma_lookup_table_def f_truediv_def py_then_def)
  next
    case False
    then have r: "- (2 powi 1024) < g" "g \<le> - (2 powi (- 1023))" using g by simp_all
    have neg: "g < 0" using r(2) zero_less_power_int [of "2::real" "- 1023"] by linarith
    have "- g < 2 powi 1024" using r(1) by simp
    then have "1 / 2 powi 1024 \<le> 1 / (- g)" using neg by (intro divide_left_mono) simp_all
    then have "1 / g \<le> - (2 powi (- 1024))" by (simp add: power_int_minus_divide)
    then have "rnd (1 / g) \<le> rnd (- (2 powi (- 1024)))" by (rule rnd_mono)
    moreover have "rnd (2 powi (- 1024)) = 2 powi (- 1024)" by (rule rnd_pow2) simp
    ultimately have "rnd (1 / g) \<le> - (2 powi (- 1024))" by (simp only: rnd_minus)
    then have rneg: "rnd (1 / g) < 0" using zero_less_power_int [of "2::real" "- 1024"] by linarith
    have "2 powi (- 1023) \<le> - g" using r(2) by simp
    then have "1 / (- g) \<le> 1 / 2 powi (- 1023)" using neg by (intro divide_left_mono) simp_all
    then have "\<bar>1 / g\<bar> \<le> 2 powi 1023" using neg by (simp add: power_int_minus_divide)
    then have "fl (1 / g) = Fin (rnd (1 / g))" by (rule fl_finite)
    then have d: "f_truediv (Fin 1) (Fin g) = Inr (Fin (rnd (1 / g)))"
      using False by (simp add: f_truediv_def)
    have z: "float_of_int (int 0) = Inr (Fin 0)" using float_of_int_exact [of 0] by simp
    have "fl 0 = Fin 0" using fl_int [of 0] by simp
    then have "gamma_entry pw (Fin (rnd (1 / g))) 0 = Inl ZeroDivisionError"
      using rneg z by (simp add: gamma_entry_def py_then_def f_truediv_def py_pow_def)
    then show ?thesis
      by (simp add: gamma_lookup_table_def d py_then_def create_lookup_table_def upt)
  qed
  have ne: "Fin g \<noteq> Fin 1"
  proof -
    have "g \<le> 0" using g zero_less_power_int [of "2::real" "- 1023"] by auto
    then show ?thesis by simp
  qed
  show ?thesis
    using t ne
    by (cases img) (simp_all add: GammaAdjuster_process_def validate_input_def)
qed

text \<open>
  The theorem at \<open>\<gamma> = 0\<close> and at \<open>\<gamma> = -2\<close>.
\<close>

theorem gamma_nonpositive_fails_witness:
  "((0::real) = 0 \<or> (- (2 ^ 1024) < (0::real) \<and> (0::real) \<le> - (2 powi (- 1023))))
   \<and> ((- 2::real) = 0 \<or> (- (2 ^ 1024) < (- 2::real) \<and> (- 2::real) \<le> - (2 powi (- 1023))))
   \<and> gamma_lookup_table (\<lambda>x y. NaN) (Fin 0) = Inl ZeroDivisionError
   \<and> gamma_lookup_table (\<lambda>x y. NaN) (Fin (- 2)) = Inl ZeroDivisionError
   \<and> GammaAdjuster_process (\<lambda>x y. NaN) (Fin 1)
        (NdArray \<lparr>shape = [1, 2], data = [10, 200]\<rparr>) (Some (Fin (- 2)))
       = Inl ZeroDivisionError"
proof -
  have z: "(0::real) = 0 \<or> (- (2 ^ 1024) < (0::real) \<and> (0::real) \<le> - (2 powi (- 1023)))"
    by simp
  have "(2::real) powi (- 1023) \<le> 2 powi 1" by (simp only: pow2_le_iff)
  then have "(- 2::real) \<le> - (2 powi (- 1023))" by simp
  moreover have "- (2 ^ 1024) < (- 2::real)" by simp
  ultimately have m: "(- 2::real) = 0
      \<or> (- (2 ^ 1024) < (- 2::real) \<and> (- 2::real) \<le> - (2 powi (- 1023)))"
    by blast
  have v: "validate_image (NdArray \<lparr>shape = [1, 2], data = [10, 200]\<rparr>)" by simp
  show ?thesis
    using z m v gamma_nonpositive_fails [OF z, of "\<lambda>x y. NaN" "Fin 1" PyNone]
      gamma_nonpositive_fails [OF m, of "\<lambda>x y. NaN" "Fin 1"
        "NdArray \<lparr>shape = [1, 2], data = [10, 200]\<rparr>"]
    by blast
qed

section \<open>The recommended gamma\<close>

lemma fl_numeral: "(numeral k :: int) < 2 ^ 53 \<Longrightarrow> fl (numeral k) = Fin (numeral k)"
  using fl_int [of "numeral k"] by simp

lemma fl_zero [simp]: "fl 0 = Fin 0"
  using fl_int [of 0] by simp

lemma fl_one [simp]: "fl 1 = Fin 1"
  using fl_int [of 1] by simp

lemma rnd_half: "rnd (1 / 2) = 1 / 2"
  using rnd_exact [of 1 "- 1"] by simp

lemma rnd_85: "rnd 85 = 85"
  using rnd_int [of 85] by simp

lemma rnd_three_halves: "rnd (3 / 2) = 3 / 2"
  using rnd_exact [of 3 "- 1"] by simp

lemma sum_samples_le: "sum_list (map unat (xs :: 8 word list)) \<le> 255 * length xs"
proof (induction xs)
  case Nil
  then show ?case by simp
next
  case (Cons x xs)
  have "unat x < 2 ^ LENGTH(8)" by (rule unsigned_less)
  then have "unat x \<le> 255" by simp
  with Cons show ?case by simp
qed

lemma np_mean_range:
  assumes "data g \<noteq> []"
  shows "\<exists>\<mu>. np_mean g = Fin \<mu> \<and> 0 \<le> \<mu> \<and> \<mu> \<le> 255"
proof -
  let ?S = "real (sum_list (map unat (data g)))" and ?n = "real (length (data g))"
  have n: "0 < ?n" using assms by simp
  have "?S \<le> real (255 * length (data g))"
    using sum_samples_le [of "data g"] by (simp only: of_nat_le_iff)
  then have "?S \<le> 255 * ?n" by simp
  then have up: "?S / ?n \<le> 255" using n by (simp add: pos_divide_le_eq)
  have lo: "0 \<le> ?S / ?n" by simp
  have "\<bar>?S / ?n\<bar> \<le> 2 powi 8" using lo up by simp
  then have f: "fl (?S / ?n) = Fin (rnd (?S / ?n))" by (rule fl_finite_pow2) simp
  have "rnd (?S / ?n) \<le> rnd (real_of_int 255)" using up by (intro rnd_mono) simp
  then have "rnd (?S / ?n) \<le> 255" using rnd_int [of 255] by simp
  moreover have "0 \<le> rnd (?S / ?n)" using lo by (rule rnd_nonneg)
  ultimately show ?thesis using assms f by (simp add: np_mean_def)
qed

lemma np_mean_cases: "np_mean g = NaN \<or> (\<exists>\<mu>. np_mean g = Fin \<mu> \<and> 0 \<le> \<mu> \<and> \<mu> \<le> 255)"
  using np_mean_range [of g] by (cases "data g = []") (simp_all add: np_mean_def)

text \<open>The gamma that \<open>auto_gamma\<close> selects for a finite mean.\<close>

lemma low_band:
  assumes "0 \<le> \<mu>" and "\<mu> < 85"
  shows "f_add (Fin (1 / 2)) (ieee_div (Fin \<mu>) (Fin 170)) = Fin (rnd (1 / 2 + rnd (\<mu> / 170)))"
    and "1 / 2 \<le> rnd (1 / 2 + rnd (\<mu> / 170))" and "rnd (1 / 2 + rnd (\<mu> / 170)) \<le> 1"
proof -
  have q: "0 \<le> \<mu> / 170" "\<mu> / 170 \<le> 1 / 2" using assms by simp_all
  have "\<bar>\<mu> / 170\<bar> \<le> 2 powi 0" using q by simp
  then have f1: "fl (\<mu> / 170) = Fin (rnd (\<mu> / 170))" by (rule fl_finite_pow2) simp
  have r0: "0 \<le> rnd (\<mu> / 170)" using q(1) by (rule rnd_nonneg)
  have "rnd (\<mu> / 170) \<le> rnd (1 / 2)" using q(2) by (rule rnd_mono)
  then have r1: "rnd (\<mu> / 170) \<le> 1 / 2" by (simp only: rnd_half)
  have "\<bar>1 / 2 + rnd (\<mu> / 170)\<bar> \<le> 2 powi 0" using r0 r1 by simp
  then have f2: "fl (1 / 2 + rnd (\<mu> / 170)) = Fin (rnd (1 / 2 + rnd (\<mu> / 170)))"
    by (rule fl_finite_pow2) simp
  show "f_add (Fin (1 / 2)) (ieee_div (Fin \<mu>) (Fin 170)) = Fin (rnd (1 / 2 + rnd (\<mu> / 170)))"
    by (simp add: f1 f2)
  have "rnd (1 / 2) \<le> rnd (1 / 2 + rnd (\<mu> / 170))" using r0 by (intro rnd_mono) simp
  then show "1 / 2 \<le> rnd (1 / 2 + rnd (\<mu> / 170))" by (simp only: rnd_half)
  have "rnd (1 / 2 + rnd (\<mu> / 170)) \<le> rnd 1" using r1 by (intro rnd_mono) simp
  then show "rnd (1 / 2 + rnd (\<mu> / 170)) \<le> 1" using rnd_int [of 1] by simp
qed

lemma high_band:
  assumes "170 < \<mu>" and "\<mu> \<le> 255"
  shows "f_add (Fin 1) (ieee_div (f_sub (Fin \<mu>) (Fin 170)) (Fin 170))
         = Fin (rnd (1 + rnd (rnd (\<mu> - 170) / 170)))"
    and "1 \<le> rnd (1 + rnd (rnd (\<mu> - 170) / 170))"
    and "rnd (1 + rnd (rnd (\<mu> - 170) / 170)) \<le> 3 / 2"
proof -
  have d: "0 \<le> \<mu> - 170" "\<mu> - 170 \<le> 85" using assms by simp_all
  have "\<bar>\<mu> - 170\<bar> \<le> 2 powi 7" using d by simp
  then have f0: "fl (\<mu> - 170) = Fin (rnd (\<mu> - 170))" by (rule fl_finite_pow2) simp
  have s0: "0 \<le> rnd (\<mu> - 170)" using d(1) by (rule rnd_nonneg)
  have "rnd (\<mu> - 170) \<le> rnd (real_of_int 85)" using d(2) by (intro rnd_mono) simp
  then have s1: "rnd (\<mu> - 170) \<le> 85" using rnd_int [of 85] by simp
  have q: "0 \<le> rnd (\<mu> - 170) / 170" "rnd (\<mu> - 170) / 170 \<le> 1 / 2" using s0 s1 by simp_all
  have "\<bar>rnd (\<mu> - 170) / 170\<bar> \<le> 2 powi 0" using q by simp
  then have f1: "fl (rnd (\<mu> - 170) / 170) = Fin (rnd (rnd (\<mu> - 170) / 170))"
    by (rule fl_finite_pow2) simp
  have r0: "0 \<le> rnd (rnd (\<mu> - 170) / 170)" using q(1) by (rule rnd_nonneg)
  have "rnd (rnd (\<mu> - 170) / 170) \<le> rnd (1 / 2)" using q(2) by (rule rnd_mono)
  then have r1: "rnd (rnd (\<mu> - 170) / 170) \<le> 1 / 2" by (simp only: rnd_half)
  have "\<bar>1 + rnd (rnd (\<mu> - 170) / 170)\<bar> \<le> 2 powi 1" using r0 r1 by simp
  then have f2: "fl (1 + rnd (rnd (\<mu> - 170) / 170)) = Fin (rnd (1 + rnd (rnd (\<mu> - 170) / 170)))"
    by (rule fl_finite_pow2) simp
  show "f_add (Fin 1) (ieee_div (f_sub (Fin \<mu>) (Fin 170)) (Fin 170))
         = Fin (rnd (1 + rnd (rnd (\<mu> - 170) / 170)))"
    using f0 by (simp add: f_sub_def f1 f2)
  have "rnd 1 \<le> rnd (1 + rnd (rnd (\<mu> - 170) / 170))" using r0 by (intro rnd_mono) simp
  then show "1 \<le> rnd (1 + rnd (rnd (\<mu> - 170) / 170))" using rnd_int [of 1] by simp
  have "rnd (1 + rnd (rnd (\<mu> - 170) / 170)) \<le> rnd (3 / 2)" using r1 by (intro rnd_mono) simp
  then show "rnd (1 + rnd (rnd (\<mu> - 170) / 170)) \<le> 3 / 2" by (simp only: rnd_three_halves)
qed

lemma process_ok_pos:
  assumes u: "libm_pow_in_unit pw" and v: "validate_image (NdArray a)" and c: "0 < c"
  shows "\<exists>r. GammaAdjuster_process pw d (NdArray a) (Some (Fin c)) = Inr r"
proof -
  have "f_less (Fin 0) (Fin c)" using c by simp
  then obtain w where d: "f_truediv (Fin 1) (Fin c) = Inr w" and w: "inv_ok w"
    using inv_gamma_positive by blast
  show ?thesis
    using v gamma_table_value [OF u w d]
    by (simp add: GammaAdjuster_process_def validate_input_def)
qed

lemma recommended_selected:
  assumes u: "libm_pow_in_unit pw" and v: "validate_image (NdArray a)"
    and gray: "(if length (shape a) = 3 then cvt a else Inr a) = Inr gray"
    and pos: "0 < c"
    and sel: "Fin c = (if f_less (np_mean gray) (Fin 85)
                         then f_add (Fin (1 / 2)) (ieee_div (np_mean gray) (Fin 170))
                       else if f_less (Fin 170) (np_mean gray)
                         then f_add (Fin 1) (ieee_div (f_sub (np_mean gray) (Fin 170)) (Fin 170))
                       else Fin 1)"
  shows "get_recommended_gamma cvt pw d (NdArray a) = Inr (Fin c)"
proof -
  obtain r where r: "GammaAdjuster_process pw d (NdArray a) (Some (Fin c)) = Inr r"
    using process_ok_pos [OF u v pos] by blast
  show ?thesis
    using v gray r sel [symmetric]
    by (simp add: get_recommended_gamma_def auto_gamma_def validate_input_def Let_def
        del: validate_image.simps f_add.simps ieee_div.simps f_less.simps)
qed


text \<open>
  C6 (counterexample). A buffer of shape \<open>(1, 1, 2)\<close> passes validation, and
  \<open>auto_gamma\<close> hands every rank-3 buffer to \<open>cv2.cvtColor\<close> with
  \<open>COLOR_BGR2GRAY\<close>, which raises on a channel count other than 3 and 4. The
  conversion is written here as a function that raises on such a buffer; the
  error is not caught, so \<open>get_recommended_gamma\<close> fails.
\<close>

theorem recommended_gamma_cvt_counterexample:
  "validate_image (NdArray \<lparr>shape = [1, 1, 2], data = [10, 20]\<rparr>) \<and>
   get_recommended_gamma
     (\<lambda>a. if shape a ! 2 = 3 \<or> shape a ! 2 = 4 then Inr a else Inl CvError)
     (\<lambda>x y. Fin x) (Fin 1)
     (NdArray \<lparr>shape = [1, 1, 2], data = [10, 20]\<rparr>) = Inl CvError"
  by (simp add: get_recommended_gamma_def auto_gamma_def validate_input_def)

text \<open>
  C6 (amended). Let the buffer be valid and the grey conversion succeed (a
  rank-2 buffer is used as it is, so there the conversion cannot fail). Then
  \<open>get_recommended_gamma\<close> returns, with \<open>\<mu>\<close> the mean of the grey buffer as
  numpy computes it: \<open>0.5 + \<mu> / 170\<close> when \<open>\<mu> < 85\<close>, \<open>1.0 + (\<mu> - 170) / 170\<close>
  when \<open>\<mu> > 170\<close>, and \<open>1.0\<close> otherwise, each operation rounded to binary64;
  a mean that is not a number (an empty grey buffer) gives \<open>1.0\<close>. The value is
  exactly \<open>1.0\<close> at mean 127, \<open>0.5\<close> at mean 0 and \<open>1.5\<close> at mean 255, and it
  always lies in \<open>[0.5, 1.5]\<close>: the call never fails on such a buffer and in
  particular never divides by zero. The only assumption on the C library is
  that \<open>pow\<close> maps the unit interval into itself for a non-negative exponent.
\<close>

theorem recommended_gamma_bands:
  assumes "libm_pow_in_unit pw"
    and "validate_image (NdArray a)"
    and "(if length (shape a) = 3 then cvtColor a else Inr a) = Inr gray"
  shows "(\<forall>\<mu>. np_mean gray = Fin \<mu> \<longrightarrow>
            get_recommended_gamma cvtColor pw d (NdArray a) =
              Inr (Fin (if \<mu> < 85 then rnd (1 / 2 + rnd (\<mu> / 170))
                        else if 170 < \<mu> then rnd (1 + rnd (rnd (\<mu> - 170) / 170))
                        else 1))) \<and>
         (np_mean gray = NaN \<longrightarrow> get_recommended_gamma cvtColor pw d (NdArray a) = Inr (Fin 1)) \<and>
         (np_mean gray = Fin 127 \<longrightarrow>
            get_recommended_gamma cvtColor pw d (NdArray a) = Inr (Fin 1)) \<and>
         (np_mean gray = Fin 0 \<longrightarrow>
            get_recommended_gamma cvtColor pw d (NdArray a) = Inr (Fin (1 / 2))) \<and>
         (np_mean gray = Fin 255 \<longrightarrow>
            get_recommended_gamma cvtColor pw d (NdArray a) = Inr (Fin (3 / 2))) \<and>
         (\<exists>\<gamma>. get_recommended_gamma cvtColor pw d (NdArray a) = Inr (Fin \<gamma>) \<and>
              1 / 2 \<le> \<gamma> \<and> \<gamma> \<le> 3 / 2)"
proof -
  note sel = recommended_selected [where pw = pw and a = a and cvt = cvtColor and gray = gray, OF assms]
  have fin: "get_recommended_gamma cvtColor pw d (NdArray a) =
               Inr (Fin (if \<mu> < 85 then rnd (1 / 2 + rnd (\<mu> / 170))
                         else if 170 < \<mu> then rnd (1 + rnd (rnd (\<mu> - 170) / 170))
                         else 1))" (is "_ = Inr (Fin ?c)")
    and rng: "1 / 2 \<le> (if \<mu> < 85 then rnd (1 / 2 + rnd (\<mu> / 170))
                         else if 170 < \<mu> then rnd (1 + rnd (rnd (\<mu> - 170) / 170))
                         else 1) \<and>
              (if \<mu> < 85 then rnd (1 / 2 + rnd (\<mu> / 170))
                         else if 170 < \<mu> then rnd (1 + rnd (rnd (\<mu> - 170) / 170))
                         else 1) \<le> 3 / 2"
    if m: "np_mean gray = Fin \<mu>" for \<mu>
  proof -
    have b: "0 \<le> \<mu>" "\<mu> \<le> 255" using np_mean_cases [of gray] m by auto
    consider "\<mu> < 85" | "170 < \<mu>" | "85 \<le> \<mu>" "\<mu> \<le> 170" by linarith
    then have "get_recommended_gamma cvtColor pw d (NdArray a) = Inr (Fin ?c) \<and>
               1 / 2 \<le> ?c \<and> ?c \<le> 3 / 2"
    proof cases
      case 1
      note l = low_band [OF b(1) 1]
      have "get_recommended_gamma cvtColor pw d (NdArray a) = Inr (Fin (rnd (1 / 2 + rnd (\<mu> / 170))))"
        using l(2) 1 by (intro sel) (simp_all add: m l(1) del: f_add.simps ieee_div.simps)
      then show ?thesis using 1 l(2) l(3) by simp
    next
      case 2
      note h = high_band [OF 2 b(2)]
      have "get_recommended_gamma cvtColor pw d (NdArray a)
              = Inr (Fin (rnd (1 + rnd (rnd (\<mu> - 170) / 170))))"
        using h(2) 2 by (intro sel) (simp_all add: m h(1) del: f_add.simps ieee_div.simps)
      then show ?thesis using 2 h(2) h(3) by simp
    next
      case 3
      have "get_recommended_gamma cvtColor pw d (NdArray a) = Inr (Fin 1)"
        using 3 by (intro sel) (simp_all add: m)
      then show ?thesis using 3 by simp
    qed
    then show "get_recommended_gamma cvtColor pw d (NdArray a) = Inr (Fin ?c)"
      and "1 / 2 \<le> ?c \<and> ?c \<le> 3 / 2" by blast+
  qed
  have nan: "get_recommended_gamma cvtColor pw d (NdArray a) = Inr (Fin 1)"
    if "np_mean gray = NaN"
    using that by (intro sel) simp_all
  have c127: "get_recommended_gamma cvtColor pw d (NdArray a) = Inr (Fin 1)"
    if "np_mean gray = Fin 127"
    using fin [OF that] by simp
  have c0: "get_recommended_gamma cvtColor pw d (NdArray a) = Inr (Fin (1 / 2))"
    if "np_mean gray = Fin 0"
    using fin [OF that] by (simp add: rnd_half)
  have c255: "get_recommended_gamma cvtColor pw d (NdArray a) = Inr (Fin (3 / 2))"
    if "np_mean gray = Fin 255"
    using fin [OF that] by (simp add: rnd_85 rnd_half rnd_three_halves)
  have ex: "\<exists>\<gamma>. get_recommended_gamma cvtColor pw d (NdArray a) = Inr (Fin \<gamma>) \<and>
              1 / 2 \<le> \<gamma> \<and> \<gamma> \<le> 3 / 2"
  proof -
    consider "np_mean gray = NaN" | \<mu> where "np_mean gray = Fin \<mu>"
      using np_mean_cases [of gray] by blast
    then show ?thesis
    proof cases
      case 1
      then show ?thesis using nan by simp
    next
      case 2
      then show ?thesis using fin [OF 2] rng [OF 2] by blast
    qed
  qed
  show ?thesis using fin nan c127 c0 c255 ex by blast
qed

lemma np_mean_eval:
  "np_mean \<lparr>shape = s, data = [255, 255]\<rparr> = Fin 255"
  "np_mean \<lparr>shape = s, data = [0, 0]\<rparr> = Fin 0"
  "np_mean \<lparr>shape = s, data = [127, 127]\<rparr> = Fin 127"
  "np_mean \<lparr>shape = s, data = [17]\<rparr> = Fin 17"
  by (simp_all add: np_mean_def fl_numeral)

lemma rnd_tenth: "rnd (1 / 10) = 3602879701896397 / 36028797018963968"
  by (simp add: rnd_eval [where e = "- 4"] rne_def power_int_minus)

lemma rnd_six_tenths:
  "rnd (21617278211378381 / 36028797018963968) = 5404319552844595 / 9007199254740992"
  by (simp add: rnd_eval [where e = "- 1"] rne_def power_int_minus)

theorem recommended_gamma_bands_witness:
  "get_recommended_gamma (\<lambda>a. Inl CvError) (\<lambda>x y. Fin x) (Fin 1)
     (NdArray \<lparr>shape = [1, 2], data = [255, 255]\<rparr>) = Inr (Fin (3 / 2)) \<and>
   get_recommended_gamma (\<lambda>a. Inl CvError) (\<lambda>x y. Fin x) (Fin 1)
     (NdArray \<lparr>shape = [1, 2], data = [0, 0]\<rparr>) = Inr (Fin (1 / 2)) \<and>
   get_recommended_gamma (\<lambda>a. Inl CvError) (\<lambda>x y. Fin x) (Fin 1)
     (NdArray \<lparr>shape = [1, 2], data = [127, 127]\<rparr>) = Inr (Fin 1) \<and>
   get_recommended_gamma (\<lambda>a. Inr \<lparr>shape = [1, 1], data = [17]\<rparr>) (\<lambda>x y. Fin x) (Fin 1)
     (NdArray \<lparr>shape = [1, 1, 3], data = [17, 17, 17]\<rparr>)
     = Inr (Fin (5404319552844595 / 9007199254740992))"
proof -
  have u: "libm_pow_in_unit (\<lambda>x y. Fin x)" by (rule unit_identity)
  have "get_recommended_gamma (\<lambda>a. Inl CvError) (\<lambda>x y. Fin x) (Fin 1)
          (NdArray \<lparr>shape = [1, 2], data = [255, 255]\<rparr>) = Inr (Fin (3 / 2))"
    using recommended_gamma_bands [OF u, where a = "\<lparr>shape = [1, 2], data = [255, 255]\<rparr>"
        and gray = "\<lparr>shape = [1, 2], data = [255, 255]\<rparr>"
        and cvtColor = "\<lambda>a. Inl CvError" and d = "Fin 1"]
    by (simp add: np_mean_eval rnd_85 rnd_half rnd_three_halves)
  moreover have "get_recommended_gamma (\<lambda>a. Inl CvError) (\<lambda>x y. Fin x) (Fin 1)
          (NdArray \<lparr>shape = [1, 2], data = [0, 0]\<rparr>) = Inr (Fin (1 / 2))"
    using recommended_gamma_bands [OF u, where a = "\<lparr>shape = [1, 2], data = [0, 0]\<rparr>"
        and gray = "\<lparr>shape = [1, 2], data = [0, 0]\<rparr>"
        and cvtColor = "\<lambda>a. Inl CvError" and d = "Fin 1"]
    by (simp add: np_mean_eval rnd_85 rnd_half rnd_three_halves)
  moreover have "get_recommended_gamma (\<lambda>a. Inl CvError) (\<lambda>x y. Fin x) (Fin 1)
          (NdArray \<lparr>shape = [1, 2], data = [127, 127]\<rparr>) = Inr (Fin 1)"
    using recommended_gamma_bands [OF u, where a = "\<lparr>shape = [1, 2], data = [127, 127]\<rparr>"
        and gray = "\<lparr>shape = [1, 2], data = [127, 127]\<rparr>"
        and cvtColor = "\<lambda>a. Inl CvError" and d = "Fin 1"]
    by (simp add: np_mean_eval rnd_85 rnd_half rnd_three_halves)
  moreover have "get_recommended_gamma (\<lambda>a. Inr \<lparr>shape = [1, 1], data = [17]\<rparr>)
          (\<lambda>x y. Fin x) (Fin 1) (NdArray \<lparr>shape = [1, 1, 3], data = [17, 17, 17]\<rparr>)
          = Inr (Fin (5404319552844595 / 9007199254740992))"
    using recommended_gamma_bands [OF u, where a = "\<lparr>shape = [1, 1, 3], data = [17, 17, 17]\<rparr>"
        and gray = "\<lparr>shape = [1, 1], data = [17]\<rparr>"
        and cvtColor = "\<lambda>a. Inr \<lparr>shape = [1, 1], data = [17]\<rparr>" and d = "Fin 1"]
    by (simp add: np_mean_eval rnd_tenth rnd_six_tenths)
  ultimately show ?thesis by blast
qed

end
